theory Spec2Isabelle
  imports Complex_Main "HOL-Library.Log_Nat"
begin

section \<open>Numbers of the scripting language\<close>

text \<open>
  The page script computes with IEEE 754 binary64 numbers. A finite number is modelled
  by the real value it denotes; \<open>NaN\<close> and the two infinities are separate values.
  Every arithmetic result is rounded to the nearest binary64 value, ties to the even
  significand (\<open>fl\<close>). The sign of zero is not modelled: none of the functions below
  can observe it.
\<close>

datatype number = NaN | Inf bool | Num real

definition ilog2 :: "real \<Rightarrow> int" where
  \<comment> \<open>the binary exponent \<open>e\<close> of a positive value \<open>x\<close>: \<open>2 powi e \<le> x < 2 powi (e + 1)\<close>\<close>
  "ilog2 x = (if 1 \<le> x then bitlen \<lfloor>x\<rfloor> - 1 else - bitlen (\<lceil>1 / x\<rceil> - 1))"

definition round_half_even :: "real \<Rightarrow> int" where
  "round_half_even m =
     (let n = \<lfloor>m\<rfloor>; d = m - of_int n
      in if d < 1 / 2 then n else if 1 / 2 < d then n + 1 else if even n then n else n + 1)"

definition fl :: "real \<Rightarrow> number" where
  \<comment> \<open>53 significant bits; below \<open>2 powi (- 1022)\<close> the spacing stays \<open>2 powi (- 1074)\<close>;
      a rounded magnitude of \<open>2 powi 1024\<close> or more is an infinity; \<open>Inf True\<close> is the negative one\<close>
  "fl x =
     (if x = 0 then Num 0
      else let a = \<bar>x\<bar>;
               u = 2 powi (max (ilog2 a - 52) (- 1074));
               r = of_int (round_half_even (a / u)) * u
           in if 2 powi 1024 \<le> r then Inf (x < 0)
              else Num (if x < 0 then - r else r))"

fun num_add :: "number \<Rightarrow> number \<Rightarrow> number" where
  "num_add NaN _ = NaN"
| "num_add _ NaN = NaN"
| "num_add (Inf a) (Inf b) = (if a = b then Inf a else NaN)"
| "num_add (Inf a) (Num _) = Inf a"
| "num_add (Num _) (Inf b) = Inf b"
| "num_add (Num x) (Num y) = fl (x + y)"

fun num_div :: "number \<Rightarrow> number \<Rightarrow> number" where
  "num_div NaN _ = NaN"
| "num_div _ NaN = NaN"
| "num_div (Inf a) (Inf b) = NaN"
| "num_div (Inf a) (Num y) = Inf (a \<noteq> (y < 0))"
| "num_div (Num _) (Inf b) = Num 0"
| "num_div (Num x) (Num y) =
     (if y = 0 then (if x = 0 then NaN else Inf (x < 0)) else fl (x / y))"

fun num_less :: "number \<Rightarrow> number \<Rightarrow> bool" where
  "num_less NaN _ = False"
| "num_less _ NaN = False"
| "num_less (Inf a) (Inf b) = (a \<and> \<not> b)"
| "num_less (Inf a) (Num _) = a"
| "num_less (Num _) (Inf b) = (\<not> b)"
| "num_less (Num x) (Num y) = (x < y)"

fun Math_floor :: "number \<Rightarrow> number" where
  "Math_floor (Num x) = Num (of_int \<lfloor>x\<rfloor>)"
| "Math_floor v = v"

subsection \<open>parseInt\<close>

definition isWhiteSpace :: "char \<Rightarrow> bool" where
  \<comment> \<open>the white space and line terminators of the ASCII range\<close>
  "isWhiteSpace c = (of_char c \<in> {9, 10, 11, 12, 13, 32 :: nat})"

definition digitValue :: "char \<Rightarrow> nat option" where
  "digitValue c =
     (let n = of_char c :: nat
      in if 48 \<le> n \<and> n \<le> 57 then Some (n - 48)
         else if 97 \<le> n \<and> n \<le> 122 then Some (n - 87)
         else if 65 \<le> n \<and> n \<le> 90 then Some (n - 55)
         else None)"

definition isDigit :: "nat \<Rightarrow> char \<Rightarrow> bool" where
  "isDigit R c = (case digitValue c of None \<Rightarrow> False | Some d \<Rightarrow> d < R)"

definition mathInt :: "nat \<Rightarrow> string \<Rightarrow> nat" where
  "mathInt R Z = foldl (\<lambda>a c. a * R + (case digitValue c of None \<Rightarrow> 0 | Some d \<Rightarrow> d)) 0 Z"

definition parseInt :: "string \<Rightarrow> number" where
  \<comment> \<open>\<open>parseInt(string)\<close> with no radix argument: leading white space, an optional sign,
      an optional \<open>0x\<close> prefix, then the longest prefix of digits\<close>
  "parseInt inputString =
     (let S = dropWhile isWhiteSpace inputString;
          neg = (take 1 S = ''-'');
          S1 = (if take 1 S = ''-'' \<or> take 1 S = ''+'' then drop 1 S else S);
          hex = (take 2 S1 = ''0x'' \<or> take 2 S1 = ''0X'');
          R = (if hex then 16 else 10);
          S2 = (if hex then drop 2 S1 else S1);
          Z = takeWhile (isDigit R) S2
      in if Z = [] then NaN
         else fl (if neg then - real (mathInt R Z) else real (mathInt R Z)))"

definition parseInt_attr :: "string option \<Rightarrow> number" where
  \<comment> \<open>\<open>getAttribute\<close> answers \<open>null\<close> for a missing attribute, which \<open>parseInt\<close> reads as the text "null"\<close>
  "parseInt_attr a = parseInt (case a of None \<Rightarrow> ''null'' | Some v \<Rightarrow> v)"

section \<open>The page: window, document and the state of the components\<close>

type_synonym elem = nat

datatype error = TypeError

datatype content = Text string | Shown number
  \<comment> \<open>\<open>textContent\<close>: text of the markup, or a number the script assigned (shown in decimal)\<close>

datatype css = Css string | TranslateY real

datatype event_target = Window | Document | Element elem

datatype handler =
    NavHandleScroll | ToggleMenu | NavLinkClick | DocumentClick
  | BackToTopHandleScroll | ScrollToTop | SmoothHandleClick
  | ParallaxDebounced | LoadingScreenLoad | ImageError

datatype timer = ParallaxLater | LoaderFade elem | LoaderRemove elem

record entry =
  entryTarget :: elem
  isIntersecting :: bool

record counter =
  \<comment> \<open>the variables \<open>updateCounter\<close> closes over\<close>
  element :: elem
  target :: number
  increment :: number
  current :: number

record page =
  \<comment> \<open>window\<close>
  hasIntersectionObserver :: bool
  scrollY :: real
  innerWidth :: real
  innerHeight :: real
  listeners :: "(event_target \<times> string \<times> handler) list"
  timers :: "timer list"
  frames :: "counter list"
  scrollToCalls :: "real list"
  console :: "string list"
  defaultPrevented :: bool
  \<comment> \<open>document: structure and layout, as the platform answers\<close>
  elems :: "elem list"
  ident :: "elem \<Rightarrow> string option"
  parentChain :: "elem \<Rightarrow> elem list"
  querySelectorAll :: "string \<Rightarrow> elem list"
  body :: elem
  offsetTop :: "elem \<Rightarrow> real"
  offsetHeight :: "elem \<Rightarrow> real"
  \<comment> \<open>elements\<close>
  classList :: "elem \<Rightarrow> string set"
  attributes :: "elem \<Rightarrow> string \<Rightarrow> string option"
  textContent :: "elem \<Rightarrow> content"
  style :: "elem \<Rightarrow> string \<Rightarrow> css"
  \<comment> \<open>LazyLoader\<close>
  images :: "elem list"
  lazyObserved :: "elem set"
  preloads :: "(elem \<times> string) list"
  \<comment> \<open>ScrollAnimations\<close>
  elements :: "elem list"
  revealObserved :: "elem set"
  \<comment> \<open>Navigation\<close>
  navbar :: "elem option"
  menuToggle :: "elem option"
  navMenu :: "elem option"
  navLinks :: "elem list"
  lastScrollY :: real
  \<comment> \<open>StatsCounter\<close>
  statNumbers :: "elem list"
  animated :: "elem set"
  statsObserved :: "elem set"
  animationsStarted :: "elem list"
  \<comment> \<open>BackToTop, SmoothScroll, ParallaxEffect\<close>
  button :: "elem option"
  links :: "elem list"
  heroImg :: "elem option"

type_synonym result = "(error \<times> page) + page"

text \<open>
  \<open>elems\<close> lists the connected elements in document order, \<open>parentChain x\<close> the proper
  ancestors of \<open>x\<close>, nearest first. \<open>preloads\<close> holds the temporary images whose load
  is under way, each with the image and source its callbacks close over; \<open>frames\<close> the
  callbacks waiting for the next animation frame. \<open>lazyObserved\<close>, \<open>revealObserved\<close> and
  \<open>statsObserved\<close> are the targets of the three intersection observers.
  \<open>animationsStarted\<close>, \<open>scrollToCalls\<close> and \<open>console\<close> record calls; the script never reads them.
  A thrown error carries the page as the statements before it left it.
\<close>

definition getElementById :: "page \<Rightarrow> string \<Rightarrow> elem option" where
  "getElementById s i = find (\<lambda>e. ident s e = Some i) (elems s)"

definition querySelector :: "page \<Rightarrow> string \<Rightarrow> elem option" where
  "querySelector s sel = (case querySelectorAll s sel of [] \<Rightarrow> None | x # _ \<Rightarrow> Some x)"

definition getAttribute :: "page \<Rightarrow> elem \<Rightarrow> string \<Rightarrow> string option" where
  "getAttribute s e a = attributes s e a"

definition setAttribute :: "elem \<Rightarrow> string \<Rightarrow> string option \<Rightarrow> page \<Rightarrow> page" where
  "setAttribute e a v s = s\<lparr>attributes := (attributes s)(e := (attributes s e)(a := v))\<rparr>"

definition contains :: "page \<Rightarrow> elem \<Rightarrow> elem \<Rightarrow> bool" where
  \<comment> \<open>\<open>a.contains(x)\<close>: \<open>x\<close> is \<open>a\<close> or a descendant of \<open>a\<close>\<close>
  "contains s a x = (a \<in> set (x # parentChain s x))"

definition classList_add :: "elem \<Rightarrow> string \<Rightarrow> page \<Rightarrow> page" where
  "classList_add e c s = s\<lparr>classList := (classList s)(e := insert c (classList s e))\<rparr>"

definition classList_remove :: "elem \<Rightarrow> string \<Rightarrow> page \<Rightarrow> page" where
  "classList_remove e c s = s\<lparr>classList := (classList s)(e := classList s e - {c})\<rparr>"

definition classList_toggle :: "elem \<Rightarrow> string \<Rightarrow> page \<Rightarrow> page" where
  "classList_toggle e c s =
     (if c \<in> classList s e then classList_remove e c s else classList_add e c s)"

definition classList_contains :: "page \<Rightarrow> elem \<Rightarrow> string \<Rightarrow> bool" where
  "classList_contains s e c = (c \<in> classList s e)"

definition set_style :: "elem \<Rightarrow> string \<Rightarrow> css \<Rightarrow> page \<Rightarrow> page" where
  "set_style e p v s = s\<lparr>style := (style s)(e := (style s e)(p := v))\<rparr>"

definition addEventListener :: "event_target \<Rightarrow> string \<Rightarrow> handler \<Rightarrow> page \<Rightarrow> page" where
  \<comment> \<open>every callback the script passes is a fresh function object, so none is deduplicated\<close>
  "addEventListener t ty h s = s\<lparr>listeners := listeners s @ [(t, ty, h)]\<rparr>"

definition scrollTo :: "real \<Rightarrow> page \<Rightarrow> page" where
  \<comment> \<open>\<open>window.scrollTo({top, behavior: 'smooth'})\<close>\<close>
  "scrollTo y s = s\<lparr>scrollToCalls := scrollToCalls s @ [y]\<rparr>"

subsection \<open>LazyLoader\<close>

definition LazyLoader_loadImage :: "elem \<Rightarrow> page \<Rightarrow> page" where
  "LazyLoader_loadImage img s =
     (case getAttribute s img ''data-src'' of
        None \<Rightarrow> s
      | Some src \<Rightarrow> if src = [] then s else s\<lparr>preloads := preloads s @ [(img, src)]\<rparr>)"

definition LazyLoader_onload :: "elem \<times> string \<Rightarrow> page \<Rightarrow> page" where
  "LazyLoader_onload p s =
     (case p of (img, src) \<Rightarrow>
        setAttribute img ''data-src'' None
          (classList_add img ''loaded'' (setAttribute img ''src'' (Some src) s)))"

definition LazyLoader_onerror :: "elem \<times> string \<Rightarrow> page \<Rightarrow> page" where
  "LazyLoader_onerror p s =
     (case p of (img, src) \<Rightarrow>
        classList_add img ''loaded''
          (s\<lparr>console := console s @ [''Failed to load image: '' @ src]\<rparr>))"

definition LazyLoader_loadAllImages :: "page \<Rightarrow> page" where
  "LazyLoader_loadAllImages s = fold LazyLoader_loadImage (images s) s"

definition LazyLoader_handleIntersection :: "entry list \<Rightarrow> page \<Rightarrow> page" where
  "LazyLoader_handleIntersection entries s =
     fold (\<lambda>entry s.
        if isIntersecting entry
        then (let s' = LazyLoader_loadImage (entryTarget entry) s
              in s'\<lparr>lazyObserved := lazyObserved s' - {entryTarget entry}\<rparr>)
        else s) entries s"

definition LazyLoader_init :: "page \<Rightarrow> page" where
  "LazyLoader_init s =
     (if hasIntersectionObserver s then s\<lparr>lazyObserved := set (images s)\<rparr>
      else LazyLoader_loadAllImages s)"

definition LazyLoader_new :: "page \<Rightarrow> page" where
  "LazyLoader_new s = LazyLoader_init (s\<lparr>images := querySelectorAll s ''.lazy-img''\<rparr>)"

subsection \<open>ScrollAnimations\<close>

definition ScrollAnimations_handleIntersection :: "entry list \<Rightarrow> page \<Rightarrow> page" where
  "ScrollAnimations_handleIntersection entries s =
     fold (\<lambda>entry s.
        if isIntersecting entry then classList_add (entryTarget entry) ''visible'' s else s)
       entries s"

definition ScrollAnimations_init :: "page \<Rightarrow> page" where
  "ScrollAnimations_init s =
     (if hasIntersectionObserver s then s\<lparr>revealObserved := set (elements s)\<rparr>
      else fold (\<lambda>el. classList_add el ''visible'') (elements s) s)"

definition ScrollAnimations_new :: "page \<Rightarrow> page" where
  "ScrollAnimations_new s =
     ScrollAnimations_init (s\<lparr>elements := querySelectorAll s ''.fade-in-scroll''\<rparr>)"

subsection \<open>Navigation\<close>

definition Navigation_handleScroll :: "page \<Rightarrow> result" where
  "Navigation_handleScroll s =
     (let currentScrollY = scrollY s
      in case navbar s of
           None \<Rightarrow> Inl (TypeError, s)
         | Some nb \<Rightarrow>
             Inr ((if 100 < currentScrollY then classList_add nb ''scrolled'' s
                   else classList_remove nb ''scrolled'' s)\<lparr>lastScrollY := currentScrollY\<rparr>))"

definition Navigation_toggleMenu :: "page \<Rightarrow> result" where
  "Navigation_toggleMenu s =
     (case menuToggle s of
        None \<Rightarrow> Inl (TypeError, s)
      | Some mt \<Rightarrow>
          (let s1 = classList_toggle mt ''active'' s
           in case navMenu s of
                None \<Rightarrow> Inl (TypeError, s1)
              | Some nm \<Rightarrow>
                  (let s2 = classList_toggle nm ''active'' s1
                   in if classList_contains s2 nm ''active''
                      then Inr (set_style (body s2) ''overflow'' (Css ''hidden'') s2)
                      else Inr (set_style (body s2) ''overflow'' (Css []) s2))))"

definition Navigation_closeMenu :: "page \<Rightarrow> result" where
  "Navigation_closeMenu s =
     (case menuToggle s of
        None \<Rightarrow> Inl (TypeError, s)
      | Some mt \<Rightarrow>
          (let s1 = classList_remove mt ''active'' s
           in case navMenu s of
                None \<Rightarrow> Inl (TypeError, s1)
              | Some nm \<Rightarrow>
                  (let s2 = classList_remove nm ''active'' s1
                   in Inr (set_style (body s2) ''overflow'' (Css []) s2))))"

definition Navigation_linkClick :: "page \<Rightarrow> result" where
  \<comment> \<open>the listener \<open>init\<close> puts on every menu link\<close>
  "Navigation_linkClick s = (if innerWidth s \<le> 768 then Navigation_closeMenu s else Inr s)"

definition Navigation_documentClick :: "elem \<Rightarrow> page \<Rightarrow> result" where
  \<comment> \<open>the listener \<open>init\<close> puts on the document; the argument is \<open>e.target\<close>\<close>
  "Navigation_documentClick tgt s =
     (if innerWidth s \<le> 768
      then (case navMenu s of
              None \<Rightarrow> Inl (TypeError, s)
            | Some nm \<Rightarrow>
                if contains s nm tgt then Inr s
                else (case menuToggle s of
                        None \<Rightarrow> Inl (TypeError, s)
                      | Some mt \<Rightarrow>
                          if contains s mt tgt then Inr s
                          else if classList_contains s nm ''active'' then Navigation_closeMenu s
                          else Inr s))
      else Inr s)"

definition Navigation_init :: "page \<Rightarrow> page" where
  "Navigation_init s =
     (let s1 = addEventListener Window ''scroll'' NavHandleScroll s;
          s2 = (case menuToggle s1 of
                  None \<Rightarrow> s1
                | Some mt \<Rightarrow> addEventListener (Element mt) ''click'' ToggleMenu s1);
          s3 = fold (\<lambda>link. addEventListener (Element link) ''click'' NavLinkClick) (navLinks s2) s2
      in addEventListener Document ''click'' DocumentClick s3)"

definition Navigation_new :: "page \<Rightarrow> page" where
  "Navigation_new s =
     Navigation_init
       (s\<lparr>navbar := getElementById s ''navbar'',
          menuToggle := getElementById s ''menuToggle'',
          navMenu := getElementById s ''navMenu'',
          navLinks := querySelectorAll s ''.nav-menu a'',
          lastScrollY := scrollY s\<rparr>)"

subsection \<open>StatsCounter\<close>

definition advance :: "counter \<Rightarrow> number \<times> counter option" where
  \<comment> \<open>the arithmetic of one call of \<open>updateCounter\<close>: the number it writes, and the closure
      it hands to \<open>requestAnimationFrame\<close>, if it does\<close>
  "advance c =
     (let c' = c\<lparr>current := num_add (current c) (increment c)\<rparr>
      in if num_less (current c') (target c') then (Math_floor (current c'), Some c')
         else (target c', None))"

definition updateCounter :: "counter \<Rightarrow> page \<Rightarrow> page" where
  "updateCounter c s =
     (case advance c of
        (v, None) \<Rightarrow> s\<lparr>textContent := (textContent s)(element c := Shown v)\<rparr>
      | (v, Some c') \<Rightarrow>
          s\<lparr>textContent := (textContent s)(element c := Shown v), frames := frames s @ [c']\<rparr>)"

definition new_counter :: "page \<Rightarrow> elem \<Rightarrow> counter" where
  \<comment> \<open>the constants \<open>animateCounter\<close> computes before the first step\<close>
  "new_counter s el =
     (let tgt = parseInt_attr (getAttribute s el ''data-target'');
          duration = Num 2000;
          inc = num_div tgt (num_div duration (Num 16))
      in \<lparr>element = el, target = tgt, increment = inc, current = Num 0\<rparr>)"

definition StatsCounter_animateCounter :: "elem \<Rightarrow> page \<Rightarrow> page" where
  "StatsCounter_animateCounter el s =
     updateCounter (new_counter s el) (s\<lparr>animationsStarted := animationsStarted s @ [el]\<rparr>)"

definition StatsCounter_handleIntersection :: "entry list \<Rightarrow> page \<Rightarrow> page" where
  "StatsCounter_handleIntersection entries s =
     fold (\<lambda>entry s.
        if isIntersecting entry \<and> entryTarget entry \<notin> animated s
        then (let s' = StatsCounter_animateCounter (entryTarget entry) s
              in s'\<lparr>animated := insert (entryTarget entry) (animated s')\<rparr>)
        else s) entries s"

definition StatsCounter_init :: "page \<Rightarrow> page" where
  "StatsCounter_init s =
     (if hasIntersectionObserver s then s\<lparr>statsObserved := set (statNumbers s)\<rparr> else s)"

definition StatsCounter_new :: "page \<Rightarrow> page" where
  "StatsCounter_new s =
     StatsCounter_init
       (s\<lparr>statNumbers := querySelectorAll s ''.stat-number'', animated := {}\<rparr>)"

subsection \<open>BackToTop\<close>

definition BackToTop_handleScroll :: "page \<Rightarrow> result" where
  "BackToTop_handleScroll s =
     (case button s of
        None \<Rightarrow> Inl (TypeError, s)
      | Some b \<Rightarrow>
          Inr (if 500 < scrollY s then classList_add b ''visible'' s
               else classList_remove b ''visible'' s))"

definition BackToTop_scrollToTop :: "page \<Rightarrow> page" where
  "BackToTop_scrollToTop s = scrollTo 0 s"

definition BackToTop_init :: "page \<Rightarrow> page" where
  "BackToTop_init s =
     (case button s of
        None \<Rightarrow> s
      | Some b \<Rightarrow>
          addEventListener (Element b) ''click'' ScrollToTop
            (addEventListener Window ''scroll'' BackToTopHandleScroll s))"

definition BackToTop_new :: "page \<Rightarrow> page" where
  "BackToTop_new s = BackToTop_init (s\<lparr>button := getElementById s ''backToTop''\<rparr>)"

subsection \<open>SmoothScroll\<close>

definition SmoothScroll_handleClick :: "elem \<Rightarrow> page \<Rightarrow> result" where
  \<comment> \<open>the argument is \<open>e.currentTarget\<close>; \<open>defaultPrevented\<close> is the flag of the event \<open>e\<close>\<close>
  "SmoothScroll_handleClick cur s =
     (let href = getAttribute s cur ''href''
      in if href = Some ''#'' then Inr s
         else (let s1 = s\<lparr>defaultPrevented := True\<rparr>
               in case href of
                    None \<Rightarrow> Inl (TypeError, s1)
                  | Some h \<Rightarrow>
                      (case getElementById s1 (drop 1 h) of
                         None \<Rightarrow> Inr s1
                       | Some targetElement \<Rightarrow>
                           (case getElementById s1 ''navbar'' of
                              None \<Rightarrow> Inl (TypeError, s1)
                            | Some nb \<Rightarrow>
                                Inr (scrollTo (offsetTop s1 targetElement - offsetHeight s1 nb) s1)))))"

definition SmoothScroll_init :: "page \<Rightarrow> page" where
  "SmoothScroll_init s =
     fold (\<lambda>link. addEventListener (Element link) ''click'' SmoothHandleClick) (links s) s"

definition SmoothScroll_new :: "page \<Rightarrow> page" where
  "SmoothScroll_new s = SmoothScroll_init (s\<lparr>links := querySelectorAll s ''a[href^=\"#\"]''\<rparr>)"

subsection \<open>ParallaxEffect, LoadingScreen, image errors\<close>

definition Parallax_debounced :: "page \<Rightarrow> page" where
  \<comment> \<open>\<open>debounce(func, 5)\<close>: drop the pending call, schedule a new one\<close>
  "Parallax_debounced s = s\<lparr>timers := removeAll ParallaxLater (timers s) @ [ParallaxLater]\<rparr>"

definition Parallax_later :: "page \<Rightarrow> result" where
  "Parallax_later s =
     (let scrolled = scrollY s
      in if scrolled < innerHeight s
         then (case heroImg s of
                 None \<Rightarrow> Inl (TypeError, s)
               | Some h \<Rightarrow> Inr (set_style h ''transform'' (TranslateY (scrolled * 0.5)) s))
         else Inr s)"

definition ParallaxEffect_init :: "page \<Rightarrow> page" where
  "ParallaxEffect_init s =
     (case heroImg s of
        None \<Rightarrow> s
      | Some h \<Rightarrow> addEventListener Window ''scroll'' ParallaxDebounced s)"

definition ParallaxEffect_new :: "page \<Rightarrow> page" where
  "ParallaxEffect_new s = ParallaxEffect_init (s\<lparr>heroImg := querySelector s ''.hero-img''\<rparr>)"

definition LoadingScreen_onload :: "page \<Rightarrow> page" where
  "LoadingScreen_onload s =
     (let s1 = classList_add (body s) ''loaded'' s
      in case querySelector s1 ''.page-loader'' of
           None \<Rightarrow> s1
         | Some loader \<Rightarrow> s1\<lparr>timers := timers s1 @ [LoaderFade loader]\<rparr>)"

definition LoadingScreen_new :: "page \<Rightarrow> page" where
  "LoadingScreen_new s = addEventListener Window ''load'' LoadingScreenLoad s"

definition imageError :: "elem \<Rightarrow> page \<Rightarrow> page" where
  \<comment> \<open>the warning is recorded without the source it names\<close>
  "imageError img s =
     (set_style img ''display'' (Css ''none'') s)\<lparr>console := console s @ [''Failed to load image'']\<rparr>"

definition handleImageErrors :: "page \<Rightarrow> page" where
  "handleImageErrors s =
     fold (\<lambda>img. addEventListener (Element img) ''error'' ImageError) (querySelectorAll s ''img'') s"

subsection \<open>Initialisation and the delivery of events\<close>

definition DOMContentLoaded :: "page \<Rightarrow> page" where
  \<comment> \<open>the components in the order the script constructs them\<close>
  "DOMContentLoaded s =
     handleImageErrors (LoadingScreen_new (ParallaxEffect_new (SmoothScroll_new
       (BackToTop_new (StatsCounter_new (Navigation_new (ScrollAnimations_new
         (LazyLoader_new s))))))))"

fun after :: "result \<Rightarrow> page" where
  \<comment> \<open>an error thrown by a listener is reported and the delivery goes on\<close>
  "after (Inl (e, s)) = s"
| "after (Inr s) = s"

fun invoke :: "handler \<Rightarrow> event_target \<Rightarrow> elem \<Rightarrow> page \<Rightarrow> result" where
  "invoke NavHandleScroll cur tgt s = Navigation_handleScroll s"
| "invoke ToggleMenu cur tgt s = Navigation_toggleMenu s"
| "invoke NavLinkClick cur tgt s = Navigation_linkClick s"
| "invoke DocumentClick cur tgt s = Navigation_documentClick tgt s"
| "invoke BackToTopHandleScroll cur tgt s = BackToTop_handleScroll s"
| "invoke ScrollToTop cur tgt s = Inr (BackToTop_scrollToTop s)"
| "invoke SmoothHandleClick (Element c) tgt s = SmoothScroll_handleClick c s"
| "invoke SmoothHandleClick cur tgt s = Inr s"
| "invoke ParallaxDebounced cur tgt s = Inr (Parallax_debounced s)"
| "invoke LoadingScreenLoad cur tgt s = Inr (LoadingScreen_onload s)"
| "invoke ImageError (Element c) tgt s = Inr (imageError c s)"
| "invoke ImageError cur tgt s = Inr s"

definition deliver :: "string \<Rightarrow> event_target \<Rightarrow> elem \<Rightarrow> page \<Rightarrow> page" where
  \<comment> \<open>run the listeners of one event type on one target, in the order of registration\<close>
  "deliver ty cur tgt s =
     fold (\<lambda>l s. case l of (t, ty', h) \<Rightarrow>
             if t = cur \<and> ty' = ty then after (invoke h cur tgt s) else s)
          (listeners s) s"

fun fire :: "timer \<Rightarrow> page \<Rightarrow> page" where
  "fire ParallaxLater s = after (Parallax_later s)"
| "fire (LoaderFade l) s =
     (set_style l ''opacity'' (Css ''0'') s)\<lparr>timers := timers s @ [LoaderRemove l]\<rparr>"
| "fire (LoaderRemove l) s = s\<lparr>elems := filter (\<lambda>x. \<not> contains s l x) (elems s)\<rparr>"

datatype event =
    Scroll real
  | Resize real real
  | Click elem
  | LazyIntersection "entry list"
  | RevealIntersection "entry list"
  | StatsIntersection "entry list"
  | PreloadLoaded "elem \<times> string"
  | PreloadFailed "elem \<times> string"
  | AnimationFrame
  | Timeout timer
  | Load
  | ImgError elem

fun step :: "event \<Rightarrow> page \<Rightarrow> page" where
  "step (Scroll y) s = deliver ''scroll'' Window (body s) (s\<lparr>scrollY := y\<rparr>)"
| "step (Resize w h) s = s\<lparr>innerWidth := w, innerHeight := h\<rparr>"
| "step (Click x) s =
     deliver ''click'' Document x
       (fold (\<lambda>n. deliver ''click'' (Element n) x) (x # parentChain s x)
          (s\<lparr>defaultPrevented := False\<rparr>))"
| "step (LazyIntersection es) s =
     LazyLoader_handleIntersection (filter (\<lambda>e. entryTarget e \<in> lazyObserved s) es) s"
| "step (RevealIntersection es) s =
     ScrollAnimations_handleIntersection (filter (\<lambda>e. entryTarget e \<in> revealObserved s) es) s"
| "step (StatsIntersection es) s =
     StatsCounter_handleIntersection (filter (\<lambda>e. entryTarget e \<in> statsObserved s) es) s"
| "step (PreloadLoaded p) s =
     (if p \<in> set (preloads s) then LazyLoader_onload p (s\<lparr>preloads := remove1 p (preloads s)\<rparr>)
      else s)"
| "step (PreloadFailed p) s =
     (if p \<in> set (preloads s) then LazyLoader_onerror p (s\<lparr>preloads := remove1 p (preloads s)\<rparr>)
      else s)"
| "step AnimationFrame s = fold updateCounter (frames s) (s\<lparr>frames := []\<rparr>)"
| "step (Timeout t) s =
     (if t \<in> set (timers s) then fire t (s\<lparr>timers := remove1 t (timers s)\<rparr>) else s)"
| "step Load s = deliver ''load'' Window (body s) s"
| "step (ImgError x) s = deliver ''error'' (Element x) x s"

definition run :: "event list \<Rightarrow> page \<Rightarrow> page" where
  "run evs s = fold step evs s"

fun animation :: "nat \<Rightarrow> elem \<Rightarrow> page \<Rightarrow> content list option" where
  \<comment> \<open>what an element shows frame after frame until no callback is pending;
      \<open>None\<close> if that takes more frames than the first argument\<close>
  "animation 0 el s = None"
| "animation (Suc n) el s =
     (if frames s = [] then Some [textContent s el]
      else map_option ((#) (textContent s el)) (animation n el (step AnimationFrame s)))"

fun counter_trace :: "nat \<Rightarrow> counter \<Rightarrow> number list option" where
  \<comment> \<open>the numbers one closure writes, call after call\<close>
  "counter_trace 0 c = None"
| "counter_trace (Suc n) c =
     (case advance c of
        (v, None) \<Rightarrow> Some [v]
      | (v, Some c') \<Rightarrow> map_option ((#) v) (counter_trace n c'))"

definition registered :: "page \<Rightarrow> event_target \<Rightarrow> string \<Rightarrow> handler list" where
  \<comment> \<open>the listeners of one event type on one target, in the order of registration\<close>
  "registered s t ty = map (\<lambda>l. snd (snd l)) (filter (\<lambda>l. fst l = t \<and> fst (snd l) = ty) (listeners s))"

definition markup :: "page \<Rightarrow> elem list \<times> (elem \<Rightarrow> string option) \<times> (string \<Rightarrow> elem list)" where
  \<comment> \<open>what the document queries depend on\<close>
  "markup s = (elems s, ident s, querySelectorAll s)"

definition wiring :: "page \<Rightarrow> page" where
  \<comment> \<open>what initialisation fixes for the lifetime of the page: the page with everything
      an event can change blanked out\<close>
  "wiring s =
     s\<lparr>scrollY := 0, innerWidth := 0, innerHeight := 0, timers := [], frames := [],
       scrollToCalls := [], console := [], defaultPrevented := False, elems := [],
       classList := (\<lambda>e. {}), attributes := (\<lambda>e a. None), textContent := (\<lambda>e. Text []),
       style := (\<lambda>e p. Css []), lazyObserved := {}, preloads := [], lastScrollY := 0,
       animated := {}, animationsStarted := []\<rparr>"

definition scrolled_at :: "real \<Rightarrow> elem \<Rightarrow> page \<Rightarrow> bool" where
  \<comment> \<open>the navbar flag and the remembered offset agree with the scroll offset \<open>y\<close>\<close>
  "scrolled_at y nb s =
     (scrollY s = y \<and> lastScrollY s = y \<and> (''scrolled'' \<in> classList s nb) = (100 < y))"

definition shown_100 :: "int list" where
  \<comment> \<open>the 126 values a counter with target 100 shows\<close>
  "shown_100 =
     [0, 1, 2, 3, 4, 4, 5, 6, 7, 7, 8, 9, 10, 11, 12, 12, 13, 14, 15, 16, 16, 17, 18,
      19, 20, 20, 21, 22, 23, 24, 24, 25, 26, 27, 28, 28, 29, 30, 31, 32, 32, 33, 34,
      35, 36, 36, 37, 38, 39, 39, 40, 41, 42, 43, 43, 44, 45, 46, 47, 47, 48, 49, 50,
      51, 51, 52, 53, 54, 55, 55, 56, 57, 58, 59, 59, 60, 61, 62, 63, 63, 64, 65, 66,
      67, 67, 68, 69, 70, 71, 71, 72, 73, 74, 75, 75, 76, 77, 78, 79, 79, 80, 81, 82,
      83, 83, 84, 85, 86, 87, 87, 88, 89, 90, 91, 91, 92, 93, 94, 95, 95, 96, 97, 98,
      99, 99, 100]"

subsection \<open>A sample page\<close>

text \<open>
  Element 0 is the body, 1 the navbar, 2 the menu toggle, 3 the menu, 4 a menu link to
  \<open>#about\<close>, 5 a lazy image, 6 a reveal element, 7 a counter with target 100, 8 the
  back-to-top button, 9 the hero image, 10 the section \<open>about\<close>, 11 a link to \<open>#\<close>,
  12 a link to \<open>#missing\<close>, 13 a lazy image without \<open>data-src\<close>.
\<close>

definition sample :: page where
  "sample =
     \<lparr>hasIntersectionObserver = True, scrollY = 0, innerWidth = 500, innerHeight = 800,
      listeners = [], timers = [], frames = [], scrollToCalls = [], console = [],
      defaultPrevented = False,
      elems = [0, 1, 2, 3, 4, 5, 6, 7, 8, 9, 10, 11, 12, 13],
      ident = (\<lambda>e. None)(1 := Some ''navbar'', 2 := Some ''menuToggle'', 3 := Some ''navMenu'',
                8 := Some ''backToTop'', 10 := Some ''about''),
      parentChain = (\<lambda>e. [0])(0 := [], 2 := [1, 0], 3 := [1, 0], 4 := [3, 1, 0]),
      querySelectorAll = (\<lambda>sel. [])(''.lazy-img'' := [5, 13], ''.fade-in-scroll'' := [6],
                ''.nav-menu a'' := [4], ''.stat-number'' := [7], ''.hero-img'' := [9],
                ''a[href^=\"#\"]'' := [4, 11, 12], ''img'' := [5, 9, 13]),
      body = 0,
      offsetTop = (\<lambda>e. 0)(10 := 900),
      offsetHeight = (\<lambda>e. 0)(1 := 60),
      classList = (\<lambda>e. {})(3 := {''nav-menu''}, 5 := {''lazy-img''}, 6 := {''fade-in-scroll''},
                7 := {''stat-number''}, 9 := {''hero-img''}, 13 := {''lazy-img''}),
      attributes = (\<lambda>e a. None)(4 := [''href'' \<mapsto> ''#about''], 5 := [''data-src'' \<mapsto> ''a.jpg''],
                7 := [''data-target'' \<mapsto> ''100''], 11 := [''href'' \<mapsto> ''#''],
                12 := [''href'' \<mapsto> ''#missing'']),
      textContent = (\<lambda>e. Text []),
      style = (\<lambda>e p. Css []),
      images = [], lazyObserved = {}, preloads = [],
      elements = [], revealObserved = {},
      navbar = None, menuToggle = None, navMenu = None, navLinks = [], lastScrollY = 0,
      statNumbers = [], animated = {}, statsObserved = {}, animationsStarted = [],
      button = None, links = [], heroImg = None\<rparr>"

text \<open>
  Variants of the sample page: the back-to-top button is also a reveal element; the
  platform has no intersection observer; the menu toggle is missing; the navbar is missing.
\<close>

definition sample_aliased :: page where
  "sample_aliased =
     sample\<lparr>querySelectorAll := (querySelectorAll sample)(''.fade-in-scroll'' := [6, 8]),
            classList := (classList sample)(8 := {''fade-in-scroll''})\<rparr>"

definition sample_no_observer :: page where
  "sample_no_observer = sample\<lparr>hasIntersectionObserver := False\<rparr>"

definition sample_no_toggle :: page where
  "sample_no_toggle = sample\<lparr>ident := (ident sample)(2 := None)\<rparr>"

definition sample_no_navbar :: page where
  "sample_no_navbar = sample\<lparr>ident := (ident sample)(1 := None)\<rparr>"



section \<open>Properties\<close>

subsection \<open>Facts about rounding\<close>

lemma ilog2_lower:
  assumes "0 < x"
  shows "2 powi (ilog2 x) \<le> x"
proof (cases "1 \<le> x")
  case True
  then have n: "0 < \<lfloor>x\<rfloor>" by simp
  have b: "1 \<le> bitlen \<lfloor>x\<rfloor>"
    using n bitlen_nonneg [of "\<lfloor>x\<rfloor>"] bitlen_eq_zero_iff [of "\<lfloor>x\<rfloor>"] by linarith
  have "(2::int) ^ nat (bitlen \<lfloor>x\<rfloor> - 1) \<le> \<lfloor>x\<rfloor>"
    using bitlen_bounds [OF n] by simp
  then have "real_of_int (2 ^ nat (bitlen \<lfloor>x\<rfloor> - 1)) \<le> real_of_int \<lfloor>x\<rfloor>"
    by (rule of_int_le_iff [THEN iffD2])
  then have "(2::real) ^ nat (bitlen \<lfloor>x\<rfloor> - 1) \<le> x"
    by (simp add: le_floor_iff)
  with True b show ?thesis
    by (simp add: ilog2_def power_int_def)
next
  case False
  define m where "m = \<lceil>1 / x\<rceil> - 1"
  from False assms have y: "1 < 1 / x" by simp
  then have m: "0 < m" unfolding m_def by (simp add: less_ceiling_iff)
  have "\<lceil>1 / x\<rceil> \<le> 2 ^ nat (bitlen m)"
    using bitlen_bounds [OF m] unfolding m_def by linarith
  then have "1 / x \<le> real_of_int (2 ^ nat (bitlen m))"
    by (simp only: ceiling_le_iff)
  then have "1 / x \<le> 2 ^ nat (bitlen m)" by simp
  then have "1 / 2 ^ nat (bitlen m) \<le> x"
    using assms by (simp add: field_simps)
  moreover have "1 \<le> bitlen m"
    using m bitlen_nonneg [of m] bitlen_eq_zero_iff [of m] by linarith
  ultimately show ?thesis
    using False by (simp add: ilog2_def power_int_def m_def field_simps)
qed

lemma ilog2_upper:
  assumes "0 < x"
  shows "x < 2 powi (ilog2 x + 1)"
proof (cases "1 \<le> x")
  case True
  then have n: "0 < \<lfloor>x\<rfloor>" by simp
  have b: "1 \<le> bitlen \<lfloor>x\<rfloor>"
    using n bitlen_nonneg [of "\<lfloor>x\<rfloor>"] bitlen_eq_zero_iff [of "\<lfloor>x\<rfloor>"] by linarith
  have "\<lfloor>x\<rfloor> < 2 ^ nat (bitlen \<lfloor>x\<rfloor>)"
    using bitlen_bounds [OF n] by simp
  then have "x < real_of_int (2 ^ nat (bitlen \<lfloor>x\<rfloor>))"
    by (simp only: floor_less_iff)
  with True b show ?thesis
    by (simp add: ilog2_def power_int_def)
next
  case False
  define m where "m = \<lceil>1 / x\<rceil> - 1"
  from False assms have y: "1 < 1 / x" by simp
  then have m: "0 < m" unfolding m_def by (simp add: less_ceiling_iff)
  have b: "1 \<le> bitlen m"
    using m bitlen_nonneg [of m] bitlen_eq_zero_iff [of m] by linarith
  have "2 ^ nat (bitlen m - 1) \<le> m"
    using bitlen_bounds [OF m] by simp
  then have "real_of_int (2 ^ nat (bitlen m - 1)) \<le> real_of_int m"
    by (rule of_int_le_iff [THEN iffD2])
  moreover have "real_of_int m < 1 / x"
    unfolding m_def using ceiling_correct [of "1 / x"] by simp
  ultimately have "(2::real) ^ nat (bitlen m - 1) < 1 / x"
    by (simp only: of_int_power of_int_numeral)
  then have "x < 1 / 2 ^ nat (bitlen m - 1)"
    using assms by (simp add: field_simps)
  moreover have "- bitlen m + 1 \<le> 0" using b by simp
  moreover have "nat (- (- bitlen m + 1)) = nat (bitlen m - 1)" by simp
  ultimately show ?thesis
    using False b
    by (simp add: ilog2_def power_int_def m_def [symmetric] field_simps split: if_splits)
qed

lemma ilog2_unique:
  assumes "2 powi e \<le> x" and "x < 2 powi (e + 1)"
  shows "ilog2 x = e"
proof -
  have "(0::real) < 2 powi e" by simp
  with assms(1) have pos: "0 < x" by linarith
  have lo: "2 powi (ilog2 x) \<le> x" and hi: "x < 2 powi (ilog2 x + 1)"
    using ilog2_lower [OF pos] ilog2_upper [OF pos] by simp_all
  have "\<not> ilog2 x < e"
  proof
    assume "ilog2 x < e"
    then have "ilog2 x + 1 \<le> e" by simp
    then have "(2::real) powi (ilog2 x + 1) \<le> 2 powi e"
      by (rule power_int_increasing) simp
    with hi assms(1) show False by linarith
  qed
  moreover have "\<not> e < ilog2 x"
  proof
    assume "e < ilog2 x"
    then have "e + 1 \<le> ilog2 x" by simp
    then have "(2::real) powi (e + 1) \<le> 2 powi (ilog2 x)"
      by (rule power_int_increasing) simp
    with lo assms(2) show False by linarith
  qed
  ultimately show ?thesis by linarith
qed

lemma fl_binade:
  assumes "2 powi e \<le> x" and "x < 2 powi (e + 1)"
  shows "fl x =
    (if 2 powi 1024 \<le> real_of_int (round_half_even (x / 2 powi (max (e - 52) (- 1074)))) *
          2 powi (max (e - 52) (- 1074))
     then Inf False
     else Num (real_of_int (round_half_even (x / 2 powi (max (e - 52) (- 1074)))) *
          2 powi (max (e - 52) (- 1074))))"
proof -
  have "(0::real) < 2 powi e" by simp
  with assms(1) have pos: "0 < x" by linarith
  have e: "ilog2 x = e" using assms by (rule ilog2_unique)
  from pos have "\<bar>x\<bar> = x" "x \<noteq> 0" "\<not> x < 0" by simp_all
  then show ?thesis
    by (simp add: fl_def Let_def e)
qed

lemma round_half_even_le: "round_half_even m \<le> \<lfloor>m\<rfloor> + 1"
  by (simp add: round_half_even_def Let_def)

lemma fl_normal:
  assumes "2 powi e \<le> x" and "x < 2 powi (e + 1)" and "- 1022 \<le> e" and "e \<le> 1022"
  shows "fl x = Num (real_of_int (round_half_even (x / 2 powi (e - 52))) * 2 powi (e - 52))"
proof -
  define u :: real where "u = 2 powi (e - 52)"
  have u: "0 < u" unfolding u_def by simp
  have split: "(2::real) powi (e + 1) = 2 ^ 53 * u"
  proof -
    have "(2::real) powi (53 + (e - 52)) = 2 powi 53 * 2 powi (e - 52)"
      by (rule power_int_add) simp
    moreover have "53 + (e - 52) = e + 1" by simp
    ultimately show ?thesis unfolding u_def by simp
  qed
  have "x / u < 2 ^ 53"
    using assms(2) u unfolding split by (simp add: field_simps)
  then have "x / u < real_of_int (2 ^ 53)" by simp
  then have "\<lfloor>x / u\<rfloor> < 2 ^ 53" by (simp only: floor_less_iff)
  with round_half_even_le [of "x / u"] have "round_half_even (x / u) \<le> 2 ^ 53" by linarith
  then have "real_of_int (round_half_even (x / u)) \<le> real_of_int (2 ^ 53)"
    by (rule of_int_le_iff [THEN iffD2])
  then have "real_of_int (round_half_even (x / u)) * u \<le> 2 ^ 53 * u"
    using u by simp
  also have "\<dots> = 2 powi (e + 1)" by (simp only: split)
  also have "\<dots> \<le> 2 powi 1023"
    using assms(4) by (intro power_int_increasing) simp_all
  also have "\<dots> < 2 powi 1024"
    by (intro power_int_strict_increasing) simp_all
  finally have small: "\<not> 2 powi 1024 \<le> real_of_int (round_half_even (x / u)) * u" by simp
  have m: "max (e - 52) (- 1074) = e - 52" using assms(3) by simp
  show ?thesis
    using small unfolding fl_binade [OF assms(1,2)] m u_def by simp
qed

lemmas fl_eval = fl_normal [of "- 1"] fl_normal [of 0] fl_normal [of 1] fl_normal [of 2]
  fl_normal [of 3] fl_normal [of 4] fl_normal [of 5] fl_normal [of 6]


subsection \<open>What events leave alone\<close>

lemma wiring_fields [simp]:
  "wiring (s\<lparr>scrollY := a1\<rparr>) = wiring s"
  "wiring (s\<lparr>innerWidth := a2\<rparr>) = wiring s"
  "wiring (s\<lparr>innerHeight := a3\<rparr>) = wiring s"
  "wiring (s\<lparr>timers := a4\<rparr>) = wiring s"
  "wiring (s\<lparr>frames := a5\<rparr>) = wiring s"
  "wiring (s\<lparr>scrollToCalls := a6\<rparr>) = wiring s"
  "wiring (s\<lparr>console := a7\<rparr>) = wiring s"
  "wiring (s\<lparr>defaultPrevented := a8\<rparr>) = wiring s"
  "wiring (s\<lparr>elems := a9\<rparr>) = wiring s"
  "wiring (s\<lparr>classList := b1\<rparr>) = wiring s"
  "wiring (s\<lparr>attributes := b2\<rparr>) = wiring s"
  "wiring (s\<lparr>textContent := b3\<rparr>) = wiring s"
  "wiring (s\<lparr>style := b4\<rparr>) = wiring s"
  "wiring (s\<lparr>lazyObserved := b5\<rparr>) = wiring s"
  "wiring (s\<lparr>preloads := b6\<rparr>) = wiring s"
  "wiring (s\<lparr>lastScrollY := b7\<rparr>) = wiring s"
  "wiring (s\<lparr>animated := b8\<rparr>) = wiring s"
  "wiring (s\<lparr>animationsStarted := b9\<rparr>) = wiring s"
  by (simp_all add: wiring_def)

lemma wiring_upd [simp]:
  "wiring (classList_add e c s) = wiring s"
  "wiring (classList_remove e c s) = wiring s"
  "wiring (classList_toggle e c s) = wiring s"
  "wiring (set_style e p v s) = wiring s"
  "wiring (setAttribute e a w s) = wiring s"
  "wiring (scrollTo y s) = wiring s"
  by (simp_all add: classList_add_def classList_remove_def classList_toggle_def
      set_style_def setAttribute_def scrollTo_def)

lemma wiring_fold:
  assumes "\<And>x s. wiring (f x s) = wiring s"
  shows "wiring (fold f xs s) = wiring s"
  using assms by (induction xs arbitrary: s) simp_all

lemma wiring_Navigation [simp]:
  "wiring (after (Navigation_handleScroll s)) = wiring s"
  "wiring (after (Navigation_toggleMenu s)) = wiring s"
  "wiring (after (Navigation_closeMenu s)) = wiring s"
  by (simp_all add: Navigation_handleScroll_def Navigation_toggleMenu_def Navigation_closeMenu_def
      Let_def split: option.splits)

lemma wiring_Navigation_clicks [simp]:
  "wiring (after (Navigation_linkClick s)) = wiring s"
  "wiring (after (Navigation_documentClick x s)) = wiring s"
  by (simp_all add: Navigation_linkClick_def Navigation_documentClick_def split: option.splits)

lemma wiring_others [simp]:
  "wiring (after (BackToTop_handleScroll s)) = wiring s"
  "wiring (BackToTop_scrollToTop s) = wiring s"
  "wiring (after (SmoothScroll_handleClick c s)) = wiring s"
  "wiring (Parallax_debounced s) = wiring s"
  "wiring (after (Parallax_later s)) = wiring s"
  "wiring (LoadingScreen_onload s) = wiring s"
  "wiring (imageError c s) = wiring s"
  "wiring (LazyLoader_loadImage c s) = wiring s"
  "wiring (LazyLoader_onload q s) = wiring s"
  "wiring (LazyLoader_onerror q s) = wiring s"
  "wiring (updateCounter k s) = wiring s"
  "wiring (StatsCounter_animateCounter c s) = wiring s"
  by (simp_all add: BackToTop_handleScroll_def BackToTop_scrollToTop_def
      SmoothScroll_handleClick_def Parallax_debounced_def Parallax_later_def
      LoadingScreen_onload_def imageError_def LazyLoader_loadImage_def LazyLoader_onload_def
      LazyLoader_onerror_def updateCounter_def StatsCounter_animateCounter_def Let_def
      split: option.splits prod.splits)

lemma wiring_invoke [simp]: "wiring (after (invoke h cur tgt s)) = wiring s"
  by (cases h; cases cur) simp_all

lemma wiring_deliver [simp]: "wiring (deliver ty cur tgt s) = wiring s"
  unfolding deliver_def by (rule wiring_fold) (simp split: prod.splits)

lemma wiring_intersections [simp]:
  "wiring (LazyLoader_handleIntersection es s) = wiring s"
  "wiring (ScrollAnimations_handleIntersection es s) = wiring s"
  "wiring (StatsCounter_handleIntersection es s) = wiring s"
  unfolding LazyLoader_handleIntersection_def ScrollAnimations_handleIntersection_def
    StatsCounter_handleIntersection_def
  by (rule wiring_fold, simp add: Let_def)+

lemma wiring_fire [simp]: "wiring (fire t s) = wiring s"
  by (cases t) simp_all

lemma wiring_step [simp]: "wiring (step e s) = wiring s"
proof (cases e)
  case (Click x)
  have "wiring (fold (\<lambda>n. deliver ''click'' (Element n) x) (x # parentChain s x)
      (s\<lparr>defaultPrevented := False\<rparr>)) = wiring (s\<lparr>defaultPrevented := False\<rparr>)"
    by (rule wiring_fold) simp
  with Click show ?thesis by simp
next
  case AnimationFrame
  have "wiring (fold updateCounter (frames s) (s\<lparr>frames := []\<rparr>)) = wiring (s\<lparr>frames := []\<rparr>)"
    by (rule wiring_fold) simp
  with AnimationFrame show ?thesis by simp
qed simp_all

lemma wiring_run [simp]: "wiring (run evs s) = wiring s"
  unfolding run_def by (rule wiring_fold) simp

lemma static_fields:
  assumes "wiring s' = wiring s"
  shows "navbar s' = navbar s" and "menuToggle s' = menuToggle s" and "navMenu s' = navMenu s"
    and "button s' = button s" and "listeners s' = listeners s" and "ident s' = ident s"
    and "heroImg s' = heroImg s" and "body s' = body s" and "parentChain s' = parentChain s"
    and "navLinks s' = navLinks s" and "links s' = links s"
    and "statsObserved s' = statsObserved s" and "revealObserved s' = revealObserved s"
proof -
  have f: "\<And>g. g (wiring s') = g (wiring s)" using assms by simp
  show "navbar s' = navbar s" using f [of navbar] by (simp add: wiring_def)
  show "menuToggle s' = menuToggle s" using f [of menuToggle] by (simp add: wiring_def)
  show "navMenu s' = navMenu s" using f [of navMenu] by (simp add: wiring_def)
  show "button s' = button s" using f [of button] by (simp add: wiring_def)
  show "listeners s' = listeners s" using f [of listeners] by (simp add: wiring_def)
  show "ident s' = ident s" using f [of ident] by (simp add: wiring_def)
  show "heroImg s' = heroImg s" using f [of heroImg] by (simp add: wiring_def)
  show "body s' = body s" using f [of body] by (simp add: wiring_def)
  show "parentChain s' = parentChain s" using f [of parentChain] by (simp add: wiring_def)
  show "navLinks s' = navLinks s" using f [of navLinks] by (simp add: wiring_def)
  show "links s' = links s" using f [of links] by (simp add: wiring_def)
  show "statsObserved s' = statsObserved s" using f [of statsObserved] by (simp add: wiring_def)
  show "revealObserved s' = revealObserved s" using f [of revealObserved] by (simp add: wiring_def)
qed

lemmas run_static = static_fields [OF wiring_run]

lemmas step_static = static_fields [OF wiring_step]

lemmas invoke_static = static_fields [OF wiring_invoke]

lemma registered_static: "listeners s' = listeners s \<Longrightarrow> registered s' = registered s"
  by (simp add: registered_def fun_eq_iff)

lemma registered_scrollY [simp]: "registered (s\<lparr>scrollY := y\<rparr>) = registered s"
  by (simp add: registered_def fun_eq_iff)

lemma deliver_registered:
  "deliver ty cur tgt s = fold (\<lambda>h s. after (invoke h cur tgt s)) (registered s cur ty) s"
proof -
  have "fold (\<lambda>l s. case l of (t, ty', h) \<Rightarrow>
             if t = cur \<and> ty' = ty then after (invoke h cur tgt s) else s) ls s =
        fold (\<lambda>h s. after (invoke h cur tgt s))
          (map (\<lambda>l. snd (snd l)) (filter (\<lambda>l. fst l = cur \<and> fst (snd l) = ty) ls)) s"
    for ls
    by (induction ls arbitrary: s) (auto split: prod.splits)
  then show ?thesis by (simp add: deliver_def registered_def)
qed

lemma run_append: "run (xs @ ys) s = run ys (run xs s)"
  by (simp add: run_def)


subsection \<open>What initialisation sets up\<close>

lemma fold_addEventListener:
  "fold (\<lambda>l. addEventListener (Element l) ty h) xs s =
   s\<lparr>listeners := listeners s @ map (\<lambda>l. (Element l, ty, h)) xs\<rparr>"
  by (induction xs arbitrary: s) (simp_all add: addEventListener_def)

lemma fold_loadImage:
  "fold LazyLoader_loadImage xs s =
   s\<lparr>preloads := preloads s @
      concat (map (\<lambda>img. case getAttribute s img ''data-src'' of
                            None \<Rightarrow> []
                          | Some src \<Rightarrow> if src = [] then [] else [(img, src)]) xs)\<rparr>"
proof (induction xs arbitrary: s)
  case Nil
  show ?case by simp
next
  case (Cons x xs)
  have g: "getAttribute (LazyLoader_loadImage x s) = getAttribute s"
    by (simp add: LazyLoader_loadImage_def getAttribute_def fun_eq_iff split: option.splits)
  show ?case
    by (simp add: Cons.IH g) (simp add: LazyLoader_loadImage_def split: option.splits)
qed

lemma fold_reveal_all:
  "fold (\<lambda>el. classList_add el ''visible'') xs s =
   s\<lparr>classList := (\<lambda>e. if e \<in> set xs then insert ''visible'' (classList s e) else classList s e)\<rparr>"
proof (induction xs arbitrary: s)
  case Nil
  show ?case by simp
next
  case (Cons x xs)
  show ?case
    by (simp add: Cons.IH) (auto simp: classList_add_def fun_eq_iff intro!: arg_cong2 [of _ _ _ _ classList_update])
qed

lemma LazyLoader_new_frame [simp]:
  "statNumbers (LazyLoader_new s) = statNumbers s"
  "elements (LazyLoader_new s) = elements s"
  "revealObserved (LazyLoader_new s) = revealObserved s"
  "statsObserved (LazyLoader_new s) = statsObserved s"
  "innerWidth (LazyLoader_new s) = innerWidth s"
  "scrollY (LazyLoader_new s) = scrollY s"
  "parentChain (LazyLoader_new s) = parentChain s"
  "hasIntersectionObserver (LazyLoader_new s) = hasIntersectionObserver s"
  "frames (LazyLoader_new s) = frames s"
  "textContent (LazyLoader_new s) = textContent s"
  "heroImg (LazyLoader_new s) = heroImg s"
  "navbar (LazyLoader_new s) = navbar s"
  "menuToggle (LazyLoader_new s) = menuToggle s"
  "navMenu (LazyLoader_new s) = navMenu s"
  "button (LazyLoader_new s) = button s"
  "animated (LazyLoader_new s) = animated s"
  "animationsStarted (LazyLoader_new s) = animationsStarted s"
  "markup (LazyLoader_new s) = markup s"
  "getElementById (LazyLoader_new s) i = getElementById s i"
  "querySelector (LazyLoader_new s) q = querySelector s q"
  by (simp_all add: LazyLoader_new_def LazyLoader_init_def LazyLoader_loadAllImages_def fold_loadImage markup_def getElementById_def querySelector_def
      split: option.splits)

lemma ScrollAnimations_new_frame [simp]:
  "statNumbers (ScrollAnimations_new s) = statNumbers s"
  "statsObserved (ScrollAnimations_new s) = statsObserved s"
  "innerWidth (ScrollAnimations_new s) = innerWidth s"
  "scrollY (ScrollAnimations_new s) = scrollY s"
  "parentChain (ScrollAnimations_new s) = parentChain s"
  "hasIntersectionObserver (ScrollAnimations_new s) = hasIntersectionObserver s"
  "frames (ScrollAnimations_new s) = frames s"
  "textContent (ScrollAnimations_new s) = textContent s"
  "preloads (ScrollAnimations_new s) = preloads s"
  "heroImg (ScrollAnimations_new s) = heroImg s"
  "navbar (ScrollAnimations_new s) = navbar s"
  "menuToggle (ScrollAnimations_new s) = menuToggle s"
  "navMenu (ScrollAnimations_new s) = navMenu s"
  "button (ScrollAnimations_new s) = button s"
  "animated (ScrollAnimations_new s) = animated s"
  "animationsStarted (ScrollAnimations_new s) = animationsStarted s"
  "markup (ScrollAnimations_new s) = markup s"
  "getElementById (ScrollAnimations_new s) i = getElementById s i"
  "querySelector (ScrollAnimations_new s) q = querySelector s q"
  by (simp_all add: ScrollAnimations_new_def ScrollAnimations_init_def fold_reveal_all markup_def getElementById_def querySelector_def
      split: option.splits)

lemma Navigation_new_frame [simp]:
  "statNumbers (Navigation_new s) = statNumbers s"
  "elements (Navigation_new s) = elements s"
  "revealObserved (Navigation_new s) = revealObserved s"
  "statsObserved (Navigation_new s) = statsObserved s"
  "innerWidth (Navigation_new s) = innerWidth s"
  "scrollY (Navigation_new s) = scrollY s"
  "parentChain (Navigation_new s) = parentChain s"
  "hasIntersectionObserver (Navigation_new s) = hasIntersectionObserver s"
  "frames (Navigation_new s) = frames s"
  "textContent (Navigation_new s) = textContent s"
  "preloads (Navigation_new s) = preloads s"
  "heroImg (Navigation_new s) = heroImg s"
  "button (Navigation_new s) = button s"
  "animated (Navigation_new s) = animated s"
  "animationsStarted (Navigation_new s) = animationsStarted s"
  "markup (Navigation_new s) = markup s"
  "getElementById (Navigation_new s) i = getElementById s i"
  "querySelector (Navigation_new s) q = querySelector s q"
  by (simp_all add: Navigation_new_def Navigation_init_def fold_addEventListener addEventListener_def Let_def markup_def getElementById_def querySelector_def
      split: option.splits)

lemma StatsCounter_new_frame [simp]:
  "elements (StatsCounter_new s) = elements s"
  "revealObserved (StatsCounter_new s) = revealObserved s"
  "innerWidth (StatsCounter_new s) = innerWidth s"
  "scrollY (StatsCounter_new s) = scrollY s"
  "parentChain (StatsCounter_new s) = parentChain s"
  "hasIntersectionObserver (StatsCounter_new s) = hasIntersectionObserver s"
  "frames (StatsCounter_new s) = frames s"
  "textContent (StatsCounter_new s) = textContent s"
  "preloads (StatsCounter_new s) = preloads s"
  "heroImg (StatsCounter_new s) = heroImg s"
  "navbar (StatsCounter_new s) = navbar s"
  "menuToggle (StatsCounter_new s) = menuToggle s"
  "navMenu (StatsCounter_new s) = navMenu s"
  "button (StatsCounter_new s) = button s"
  "animationsStarted (StatsCounter_new s) = animationsStarted s"
  "markup (StatsCounter_new s) = markup s"
  "getElementById (StatsCounter_new s) i = getElementById s i"
  "querySelector (StatsCounter_new s) q = querySelector s q"
  by (simp_all add: StatsCounter_new_def StatsCounter_init_def markup_def getElementById_def querySelector_def
      split: option.splits)

lemma BackToTop_new_frame [simp]:
  "statNumbers (BackToTop_new s) = statNumbers s"
  "elements (BackToTop_new s) = elements s"
  "revealObserved (BackToTop_new s) = revealObserved s"
  "statsObserved (BackToTop_new s) = statsObserved s"
  "innerWidth (BackToTop_new s) = innerWidth s"
  "scrollY (BackToTop_new s) = scrollY s"
  "parentChain (BackToTop_new s) = parentChain s"
  "hasIntersectionObserver (BackToTop_new s) = hasIntersectionObserver s"
  "frames (BackToTop_new s) = frames s"
  "textContent (BackToTop_new s) = textContent s"
  "preloads (BackToTop_new s) = preloads s"
  "heroImg (BackToTop_new s) = heroImg s"
  "navbar (BackToTop_new s) = navbar s"
  "menuToggle (BackToTop_new s) = menuToggle s"
  "navMenu (BackToTop_new s) = navMenu s"
  "animated (BackToTop_new s) = animated s"
  "animationsStarted (BackToTop_new s) = animationsStarted s"
  "markup (BackToTop_new s) = markup s"
  "getElementById (BackToTop_new s) i = getElementById s i"
  "querySelector (BackToTop_new s) q = querySelector s q"
  by (simp_all add: BackToTop_new_def BackToTop_init_def addEventListener_def markup_def getElementById_def querySelector_def
      split: option.splits)

lemma SmoothScroll_new_frame [simp]:
  "statNumbers (SmoothScroll_new s) = statNumbers s"
  "elements (SmoothScroll_new s) = elements s"
  "revealObserved (SmoothScroll_new s) = revealObserved s"
  "statsObserved (SmoothScroll_new s) = statsObserved s"
  "innerWidth (SmoothScroll_new s) = innerWidth s"
  "scrollY (SmoothScroll_new s) = scrollY s"
  "parentChain (SmoothScroll_new s) = parentChain s"
  "hasIntersectionObserver (SmoothScroll_new s) = hasIntersectionObserver s"
  "frames (SmoothScroll_new s) = frames s"
  "textContent (SmoothScroll_new s) = textContent s"
  "preloads (SmoothScroll_new s) = preloads s"
  "heroImg (SmoothScroll_new s) = heroImg s"
  "navbar (SmoothScroll_new s) = navbar s"
  "menuToggle (SmoothScroll_new s) = menuToggle s"
  "navMenu (SmoothScroll_new s) = navMenu s"
  "button (SmoothScroll_new s) = button s"
  "animated (SmoothScroll_new s) = animated s"
  "animationsStarted (SmoothScroll_new s) = animationsStarted s"
  "markup (SmoothScroll_new s) = markup s"
  "getElementById (SmoothScroll_new s) i = getElementById s i"
  "querySelector (SmoothScroll_new s) q = querySelector s q"
  by (simp_all add: SmoothScroll_new_def SmoothScroll_init_def fold_addEventListener markup_def getElementById_def querySelector_def
      split: option.splits)

lemma ParallaxEffect_new_frame [simp]:
  "statNumbers (ParallaxEffect_new s) = statNumbers s"
  "elements (ParallaxEffect_new s) = elements s"
  "revealObserved (ParallaxEffect_new s) = revealObserved s"
  "statsObserved (ParallaxEffect_new s) = statsObserved s"
  "innerWidth (ParallaxEffect_new s) = innerWidth s"
  "scrollY (ParallaxEffect_new s) = scrollY s"
  "parentChain (ParallaxEffect_new s) = parentChain s"
  "hasIntersectionObserver (ParallaxEffect_new s) = hasIntersectionObserver s"
  "frames (ParallaxEffect_new s) = frames s"
  "textContent (ParallaxEffect_new s) = textContent s"
  "preloads (ParallaxEffect_new s) = preloads s"
  "navbar (ParallaxEffect_new s) = navbar s"
  "menuToggle (ParallaxEffect_new s) = menuToggle s"
  "navMenu (ParallaxEffect_new s) = navMenu s"
  "button (ParallaxEffect_new s) = button s"
  "animated (ParallaxEffect_new s) = animated s"
  "animationsStarted (ParallaxEffect_new s) = animationsStarted s"
  "markup (ParallaxEffect_new s) = markup s"
  "getElementById (ParallaxEffect_new s) i = getElementById s i"
  "querySelector (ParallaxEffect_new s) q = querySelector s q"
  by (simp_all add: ParallaxEffect_new_def ParallaxEffect_init_def addEventListener_def markup_def getElementById_def querySelector_def
      split: option.splits)

lemma LoadingScreen_new_frame [simp]:
  "statNumbers (LoadingScreen_new s) = statNumbers s"
  "elements (LoadingScreen_new s) = elements s"
  "revealObserved (LoadingScreen_new s) = revealObserved s"
  "statsObserved (LoadingScreen_new s) = statsObserved s"
  "innerWidth (LoadingScreen_new s) = innerWidth s"
  "scrollY (LoadingScreen_new s) = scrollY s"
  "parentChain (LoadingScreen_new s) = parentChain s"
  "hasIntersectionObserver (LoadingScreen_new s) = hasIntersectionObserver s"
  "frames (LoadingScreen_new s) = frames s"
  "textContent (LoadingScreen_new s) = textContent s"
  "preloads (LoadingScreen_new s) = preloads s"
  "heroImg (LoadingScreen_new s) = heroImg s"
  "navbar (LoadingScreen_new s) = navbar s"
  "menuToggle (LoadingScreen_new s) = menuToggle s"
  "navMenu (LoadingScreen_new s) = navMenu s"
  "button (LoadingScreen_new s) = button s"
  "animated (LoadingScreen_new s) = animated s"
  "animationsStarted (LoadingScreen_new s) = animationsStarted s"
  "markup (LoadingScreen_new s) = markup s"
  "getElementById (LoadingScreen_new s) i = getElementById s i"
  "querySelector (LoadingScreen_new s) q = querySelector s q"
  by (simp_all add: LoadingScreen_new_def addEventListener_def markup_def getElementById_def querySelector_def
      split: option.splits)

lemma handleImageErrors_frame [simp]:
  "statNumbers (handleImageErrors s) = statNumbers s"
  "elements (handleImageErrors s) = elements s"
  "revealObserved (handleImageErrors s) = revealObserved s"
  "statsObserved (handleImageErrors s) = statsObserved s"
  "innerWidth (handleImageErrors s) = innerWidth s"
  "scrollY (handleImageErrors s) = scrollY s"
  "parentChain (handleImageErrors s) = parentChain s"
  "hasIntersectionObserver (handleImageErrors s) = hasIntersectionObserver s"
  "frames (handleImageErrors s) = frames s"
  "textContent (handleImageErrors s) = textContent s"
  "preloads (handleImageErrors s) = preloads s"
  "heroImg (handleImageErrors s) = heroImg s"
  "navbar (handleImageErrors s) = navbar s"
  "menuToggle (handleImageErrors s) = menuToggle s"
  "navMenu (handleImageErrors s) = navMenu s"
  "button (handleImageErrors s) = button s"
  "animated (handleImageErrors s) = animated s"
  "animationsStarted (handleImageErrors s) = animationsStarted s"
  "markup (handleImageErrors s) = markup s"
  "getElementById (handleImageErrors s) i = getElementById s i"
  "querySelector (handleImageErrors s) q = querySelector s q"
  by (simp_all add: handleImageErrors_def fold_addEventListener markup_def getElementById_def querySelector_def
      split: option.splits)

lemma Navigation_new_fields [simp]:
  "navbar (Navigation_new s) = getElementById s ''navbar''"
  "menuToggle (Navigation_new s) = getElementById s ''menuToggle''"
  "navMenu (Navigation_new s) = getElementById s ''navMenu''"
  by (simp_all add: Navigation_new_def Navigation_init_def fold_addEventListener
      addEventListener_def Let_def split: option.splits)

lemma BackToTop_new_button [simp]: "button (BackToTop_new s) = getElementById s ''backToTop''"
  by (simp add: BackToTop_new_def BackToTop_init_def addEventListener_def split: option.splits)

lemma StatsCounter_new_animated [simp]: "animated (StatsCounter_new s) = {}"
  by (simp add: StatsCounter_new_def StatsCounter_init_def)

lemma DOMContentLoaded_fields:
  "navbar (DOMContentLoaded s) = getElementById s ''navbar''"
  "menuToggle (DOMContentLoaded s) = getElementById s ''menuToggle''"
  "navMenu (DOMContentLoaded s) = getElementById s ''navMenu''"
  "button (DOMContentLoaded s) = getElementById s ''backToTop''"
  "animated (DOMContentLoaded s) = {}"
  "animationsStarted (DOMContentLoaded s) = animationsStarted s"
  by (simp_all add: DOMContentLoaded_def)

lemma DOMContentLoaded_ident [simp]: "ident (DOMContentLoaded s) = ident s"
proof -
  have "markup (DOMContentLoaded s) = markup s" by (simp add: DOMContentLoaded_def)
  then show ?thesis by (simp add: markup_def)
qed

lemma DOMContentLoaded_env [simp]:
  "innerWidth (DOMContentLoaded s) = innerWidth s"
  "scrollY (DOMContentLoaded s) = scrollY s"
  "parentChain (DOMContentLoaded s) = parentChain s"
  "frames (DOMContentLoaded s) = frames s"
  "textContent (DOMContentLoaded s) = textContent s"
  by (simp_all add: DOMContentLoaded_def)

lemma querySelectorAll_frames [simp]:
  "querySelectorAll (LazyLoader_new s) = querySelectorAll s"
  "querySelectorAll (ScrollAnimations_new s) = querySelectorAll s"
  "querySelectorAll (Navigation_new s) = querySelectorAll s"
proof -
  have "markup (LazyLoader_new s) = markup s" "markup (ScrollAnimations_new s) = markup s"
    "markup (Navigation_new s) = markup s" by simp_all
  then show "querySelectorAll (LazyLoader_new s) = querySelectorAll s"
    "querySelectorAll (ScrollAnimations_new s) = querySelectorAll s"
    "querySelectorAll (Navigation_new s) = querySelectorAll s"
    by (simp_all add: markup_def)
qed

lemma DOMContentLoaded_observers:
  "elements (DOMContentLoaded s) = querySelectorAll s ''.fade-in-scroll''"
  "revealObserved (DOMContentLoaded s) =
     (if hasIntersectionObserver s then set (querySelectorAll s ''.fade-in-scroll'')
      else revealObserved s)"
  "statsObserved (DOMContentLoaded s) =
     (if hasIntersectionObserver s then set (querySelectorAll s ''.stat-number'')
      else statsObserved s)"
  "preloads (DOMContentLoaded s) =
     (if hasIntersectionObserver s then preloads s
      else preloads s @
        concat (map (\<lambda>img. case getAttribute s img ''data-src'' of
                              None \<Rightarrow> []
                            | Some src \<Rightarrow> if src = [] then [] else [(img, src)])
                 (querySelectorAll s ''.lazy-img'')))"
  by (simp_all add: DOMContentLoaded_def ScrollAnimations_new_def ScrollAnimations_init_def
      fold_reveal_all StatsCounter_new_def StatsCounter_init_def LazyLoader_new_def
      LazyLoader_init_def LazyLoader_loadAllImages_def fold_loadImage getAttribute_def)

lemma DOMContentLoaded_statNumbers:
  "statNumbers (DOMContentLoaded s) = querySelectorAll s ''.stat-number''"
proof -
  have "statNumbers (StatsCounter_new s') = querySelectorAll s' ''.stat-number''" for s'
    by (simp add: StatsCounter_new_def StatsCounter_init_def)
  then show ?thesis by (simp add: DOMContentLoaded_def)
qed

lemma classList_frames [simp]:
  "classList (LazyLoader_new s) = classList s"
  "classList (Navigation_new s) = classList s"
  "classList (StatsCounter_new s) = classList s"
  "classList (BackToTop_new s) = classList s"
  "classList (SmoothScroll_new s) = classList s"
  "classList (ParallaxEffect_new s) = classList s"
  "classList (LoadingScreen_new s) = classList s"
  "classList (handleImageErrors s) = classList s"
  by (simp_all add: LazyLoader_new_def LazyLoader_init_def LazyLoader_loadAllImages_def
      fold_loadImage Navigation_new_def Navigation_init_def StatsCounter_new_def
      StatsCounter_init_def BackToTop_new_def BackToTop_init_def SmoothScroll_new_def
      SmoothScroll_init_def ParallaxEffect_new_def ParallaxEffect_init_def LoadingScreen_new_def
      handleImageErrors_def fold_addEventListener addEventListener_def Let_def
      split: option.splits)



lemma registered_frames [simp]:
  "registered (LazyLoader_new s) t ty = registered s t ty"
  "registered (ScrollAnimations_new s) t ty = registered s t ty"
  "registered (StatsCounter_new s) t ty = registered s t ty"
  by (simp_all add: registered_def LazyLoader_new_def LazyLoader_init_def
      LazyLoader_loadAllImages_def fold_loadImage ScrollAnimations_new_def
      ScrollAnimations_init_def fold_reveal_all StatsCounter_new_def StatsCounter_init_def)

lemma registered_scroll [simp]:
  "registered (Navigation_new s) Window ''scroll'' = registered s Window ''scroll'' @ [NavHandleScroll]"
  "registered (BackToTop_new s) Window ''scroll'' = registered s Window ''scroll'' @
     (case getElementById s ''backToTop'' of None \<Rightarrow> [] | Some b \<Rightarrow> [BackToTopHandleScroll])"
  "registered (SmoothScroll_new s) Window ''scroll'' = registered s Window ''scroll''"
  "registered (ParallaxEffect_new s) Window ''scroll'' = registered s Window ''scroll'' @
     (case querySelector s ''.hero-img'' of None \<Rightarrow> [] | Some h \<Rightarrow> [ParallaxDebounced])"
  "registered (LoadingScreen_new s) Window ''scroll'' = registered s Window ''scroll''"
  "registered (handleImageErrors s) Window ''scroll'' = registered s Window ''scroll''"
  by (simp_all add: registered_def Navigation_new_def Navigation_init_def fold_addEventListener
      addEventListener_def Let_def BackToTop_new_def BackToTop_init_def SmoothScroll_new_def
      SmoothScroll_init_def ParallaxEffect_new_def ParallaxEffect_init_def LoadingScreen_new_def
      handleImageErrors_def filter_map comp_def split: option.splits)

lemma DOMContentLoaded_scroll_listeners:
  "registered (DOMContentLoaded s) Window ''scroll'' =
   registered s Window ''scroll'' @ [NavHandleScroll] @
   (case getElementById s ''backToTop'' of None \<Rightarrow> [] | Some b \<Rightarrow> [BackToTopHandleScroll]) @
   (case querySelector s ''.hero-img'' of None \<Rightarrow> [] | Some h \<Rightarrow> [ParallaxDebounced])"
  by (simp add: DOMContentLoaded_def)

lemma registered_document_click [simp]:
  "registered (Navigation_new s) Document ''click'' = registered s Document ''click'' @ [DocumentClick]"
  "registered (BackToTop_new s) Document ''click'' = registered s Document ''click''"
  "registered (SmoothScroll_new s) Document ''click'' = registered s Document ''click''"
  "registered (ParallaxEffect_new s) Document ''click'' = registered s Document ''click''"
  "registered (LoadingScreen_new s) Document ''click'' = registered s Document ''click''"
  "registered (handleImageErrors s) Document ''click'' = registered s Document ''click''"
  by (simp_all add: registered_def Navigation_new_def Navigation_init_def fold_addEventListener
      addEventListener_def Let_def BackToTop_new_def BackToTop_init_def SmoothScroll_new_def
      SmoothScroll_init_def ParallaxEffect_new_def ParallaxEffect_init_def LoadingScreen_new_def
      handleImageErrors_def filter_map comp_def split: option.splits)

lemma DOMContentLoaded_document_click:
  "registered (DOMContentLoaded s) Document ''click'' = registered s Document ''click'' @ [DocumentClick]"
  by (simp add: DOMContentLoaded_def)


lemma getElementById_defaultPrevented [simp]:
  "getElementById (s\<lparr>defaultPrevented := b\<rparr>) i = getElementById s i"
  by (simp add: getElementById_def)

lemma sample_navbar: "getElementById sample ''navbar'' = Some 1"
  by (simp add: getElementById_def sample_def)

lemma querySelectorAll_frames2 [simp]:
  "querySelectorAll (StatsCounter_new s) = querySelectorAll s"
  "querySelectorAll (BackToTop_new s) = querySelectorAll s"
  "querySelectorAll (SmoothScroll_new s) = querySelectorAll s"
proof -
  have "markup (StatsCounter_new s) = markup s" "markup (BackToTop_new s) = markup s"
    "markup (SmoothScroll_new s) = markup s" by simp_all
  then show "querySelectorAll (StatsCounter_new s) = querySelectorAll s"
    "querySelectorAll (BackToTop_new s) = querySelectorAll s"
    "querySelectorAll (SmoothScroll_new s) = querySelectorAll s"
    by (simp_all add: markup_def)
qed

lemma registered_element_click [simp]:
  "registered (Navigation_new s) (Element n) ''click'' =
     registered s (Element n) ''click'' @
     (if getElementById s ''menuToggle'' = Some n then [ToggleMenu] else []) @
     map (\<lambda>l. NavLinkClick) (filter (\<lambda>l. l = n) (querySelectorAll s ''.nav-menu a''))"
  "registered (BackToTop_new s) (Element n) ''click'' =
     registered s (Element n) ''click'' @
     (if getElementById s ''backToTop'' = Some n then [ScrollToTop] else [])"
  "registered (SmoothScroll_new s) (Element n) ''click'' =
     registered s (Element n) ''click'' @
     map (\<lambda>l. SmoothHandleClick) (filter (\<lambda>l. l = n) (querySelectorAll s ''a[href^=\"#\"]''))"
  "registered (ParallaxEffect_new s) (Element n) ''click'' = registered s (Element n) ''click''"
  "registered (LoadingScreen_new s) (Element n) ''click'' = registered s (Element n) ''click''"
  "registered (handleImageErrors s) (Element n) ''click'' = registered s (Element n) ''click''"
  by (simp_all add: registered_def Navigation_new_def Navigation_init_def fold_addEventListener
      addEventListener_def Let_def BackToTop_new_def BackToTop_init_def SmoothScroll_new_def
      SmoothScroll_init_def ParallaxEffect_new_def ParallaxEffect_init_def LoadingScreen_new_def
      handleImageErrors_def filter_map comp_def split: option.splits)



lemma page_frames [simp]:
  "attributes (LazyLoader_new s) = attributes s"
  "attributes (ScrollAnimations_new s) = attributes s"
  "attributes (Navigation_new s) = attributes s"
  "attributes (StatsCounter_new s) = attributes s"
  "attributes (BackToTop_new s) = attributes s"
  "attributes (SmoothScroll_new s) = attributes s"
  "attributes (ParallaxEffect_new s) = attributes s"
  "attributes (LoadingScreen_new s) = attributes s"
  "attributes (handleImageErrors s) = attributes s"
  "scrollToCalls (LazyLoader_new s) = scrollToCalls s"
  "scrollToCalls (ScrollAnimations_new s) = scrollToCalls s"
  "scrollToCalls (Navigation_new s) = scrollToCalls s"
  "scrollToCalls (StatsCounter_new s) = scrollToCalls s"
  "scrollToCalls (BackToTop_new s) = scrollToCalls s"
  "scrollToCalls (SmoothScroll_new s) = scrollToCalls s"
  "scrollToCalls (ParallaxEffect_new s) = scrollToCalls s"
  "scrollToCalls (LoadingScreen_new s) = scrollToCalls s"
  "scrollToCalls (handleImageErrors s) = scrollToCalls s"
  "body (LazyLoader_new s) = body s"
  "body (ScrollAnimations_new s) = body s"
  "body (Navigation_new s) = body s"
  "body (StatsCounter_new s) = body s"
  "body (BackToTop_new s) = body s"
  "body (SmoothScroll_new s) = body s"
  "body (ParallaxEffect_new s) = body s"
  "body (LoadingScreen_new s) = body s"
  "body (handleImageErrors s) = body s"
  by (simp_all add: LazyLoader_new_def LazyLoader_init_def LazyLoader_loadAllImages_def
      fold_loadImage ScrollAnimations_new_def ScrollAnimations_init_def fold_reveal_all
      Navigation_new_def Navigation_init_def StatsCounter_new_def
      StatsCounter_init_def BackToTop_new_def BackToTop_init_def SmoothScroll_new_def
      SmoothScroll_init_def ParallaxEffect_new_def ParallaxEffect_init_def LoadingScreen_new_def
      handleImageErrors_def fold_addEventListener addEventListener_def Let_def
      split: option.splits)



subsection \<open>Invariants of event delivery\<close>

lemmas handler_defs =
  Navigation_handleScroll_def Navigation_toggleMenu_def Navigation_closeMenu_def
  Navigation_linkClick_def Navigation_documentClick_def BackToTop_handleScroll_def
  BackToTop_scrollToTop_def SmoothScroll_handleClick_def Parallax_debounced_def
  Parallax_later_def LoadingScreen_onload_def imageError_def LazyLoader_loadImage_def
  LazyLoader_onload_def LazyLoader_onerror_def updateCounter_def
  StatsCounter_animateCounter_def

lemmas dom_defs =
  classList_add_def classList_remove_def classList_toggle_def classList_contains_def
  set_style_def setAttribute_def scrollTo_def

lemma fold_invariant:
  assumes "P s" and "\<And>x s. P s \<Longrightarrow> P (f x s)"
  shows "P (fold f xs s)"
  using assms by (induction xs arbitrary: s) simp_all

lemma fold_invariant_set:
  assumes "P s" and "\<And>x s. x \<in> set xs \<Longrightarrow> P s \<Longrightarrow> P (f x s)"
  shows "P (fold f xs s)"
  using assms by (induction xs arbitrary: s) simp_all

lemma deliver_invariant:
  assumes "P s" and "\<And>h cur tgt s. P s \<Longrightarrow> P (after (invoke h cur tgt s))"
  shows "P (deliver ty cur tgt s)"
  unfolding deliver_registered using assms by (intro fold_invariant [where P = P])

lemma step_invariant:
  assumes start: "P s"
    and scroll: "\<And>y. e = Scroll y \<Longrightarrow> P (s\<lparr>scrollY := y\<rparr>)"
    and handlers: "\<And>h cur tgt s. P s \<Longrightarrow> P (after (invoke h cur tgt s))"
    and lazy: "\<And>img s. P s \<Longrightarrow>
        P ((LazyLoader_loadImage img s)\<lparr>lazyObserved := lazyObserved (LazyLoader_loadImage img s) - {img}\<rparr>)"
    and reveal: "\<And>el s. P s \<Longrightarrow> P (classList_add el ''visible'' s)"
    and stats: "\<And>el s'. P s' \<Longrightarrow> el \<in> statsObserved s \<Longrightarrow> el \<notin> animated s' \<Longrightarrow>
        P ((StatsCounter_animateCounter el s')\<lparr>animated := insert el (animated (StatsCounter_animateCounter el s'))\<rparr>)"
    and loaded: "\<And>p s. P s \<Longrightarrow> P (LazyLoader_onload p s)"
    and failed: "\<And>p s. P s \<Longrightarrow> P (LazyLoader_onerror p s)"
    and frame: "\<And>c s. P s \<Longrightarrow> P (updateCounter c s)"
    and timer: "\<And>t s. P s \<Longrightarrow> P (fire t s)"
    and env: "\<And>s b. P s \<Longrightarrow> P (s\<lparr>defaultPrevented := b\<rparr>)"
      "\<And>s x. P s \<Longrightarrow> P (s\<lparr>frames := x\<rparr>)"
      "\<And>s x. P s \<Longrightarrow> P (s\<lparr>preloads := x\<rparr>)"
      "\<And>s x. P s \<Longrightarrow> P (s\<lparr>timers := x\<rparr>)"
      "\<And>s w h. P s \<Longrightarrow> P (s\<lparr>innerWidth := w, innerHeight := h\<rparr>)"
  shows "P (step e s)"
proof (cases e)
  case (Scroll y)
  then have "P (s\<lparr>scrollY := y\<rparr>)" by (rule scroll)
  then have "P (deliver ''scroll'' Window (body s) (s\<lparr>scrollY := y\<rparr>))"
    by (rule deliver_invariant) (rule handlers)
  with Scroll show ?thesis by simp
next
  case (Resize w h)
  with start env(5) show ?thesis by simp
next
  case (Click x)
  define s1 where
    "s1 = fold (\<lambda>n. deliver ''click'' (Element n) x) (x # parentChain s x)
       (s\<lparr>defaultPrevented := False\<rparr>)"
  have "P (s\<lparr>defaultPrevented := False\<rparr>)" using start by (rule env(1))
  then have "P s1"
    unfolding s1_def
    by (rule fold_invariant [where P = P]) (rule deliver_invariant, assumption, rule handlers)
  then have "P (deliver ''click'' Document x s1)"
    by (rule deliver_invariant) (rule handlers)
  moreover have "step e s = deliver ''click'' Document x s1"
    by (simp add: Click s1_def)
  ultimately show ?thesis by simp
next
  case (LazyIntersection es)
  have "P (LazyLoader_handleIntersection es' s)" for es'
    unfolding LazyLoader_handleIntersection_def using start
    by (rule fold_invariant [where P = P]) (simp add: Let_def lazy)
  with LazyIntersection show ?thesis by simp
next
  case (RevealIntersection es)
  have "P (ScrollAnimations_handleIntersection es' s)" for es'
    unfolding ScrollAnimations_handleIntersection_def using start
    by (rule fold_invariant [where P = P]) (simp add: reveal)
  with RevealIntersection show ?thesis by simp
next
  case (StatsIntersection es)
  have "P (StatsCounter_handleIntersection (filter (\<lambda>e. entryTarget e \<in> statsObserved s) es) s)"
    unfolding StatsCounter_handleIntersection_def using start
    by (rule fold_invariant_set [where P = P]) (simp add: Let_def stats)
  with StatsIntersection show ?thesis by simp
next
  case (PreloadLoaded p)
  with start show ?thesis by (simp add: loaded env(3))
next
  case (PreloadFailed p)
  with start show ?thesis by (simp add: failed env(3))
next
  case AnimationFrame
  have "P (s\<lparr>frames := []\<rparr>)" using start by (rule env(2))
  then have "P (fold updateCounter (frames s) (s\<lparr>frames := []\<rparr>))"
    by (rule fold_invariant [where P = P]) (rule frame)
  with AnimationFrame show ?thesis by simp
next
  case (Timeout t)
  with start show ?thesis by (simp add: timer env(4))
next
  case Load
  with start show ?thesis by (simp add: deliver_invariant handlers)
next
  case (ImgError x)
  with start show ?thesis by (simp add: deliver_invariant handlers)
qed

lemma invoke_animations:
  "animationsStarted (after (invoke h cur tgt s)) = animationsStarted s \<and>
   animated (after (invoke h cur tgt s)) = animated s"
  by (cases h; cases cur) (auto simp: handler_defs dom_defs Let_def split: option.splits)



















subsection \<open>The counter animation\<close>

lemma parseInt_100: "parseInt_attr (Some ''100'') = Num 100"
  by (simp add: parseInt_attr_def parseInt_def isWhiteSpace_def isDigit_def digitValue_def
      mathInt_def fl_normal [of 6] round_half_even_def)

lemma steps_per_animation: "num_div (Num 2000) (Num 16) = Num 125"
  by (simp add: fl_normal [of 6] round_half_even_def)

lemma increment_100: "num_div (Num 100) (Num 125) = Num (3602879701896397 / 4503599627370496)"
  by (simp add: fl_normal [of "- 1"] round_half_even_def)

lemma new_counter_100:
  assumes "getAttribute s el ''data-target'' = Some ''100''"
  shows "new_counter s el =
    \<lparr>element = el, target = Num 100,
     increment = Num (3602879701896397 / 4503599627370496), current = Num 0\<rparr>"
  unfolding new_counter_def assms parseInt_100 steps_per_animation increment_100 Let_def
  by (rule refl)

lemma counter_trace_100:
  "counter_trace 126
     \<lparr>element = el, target = Num 100,
      increment = Num (3602879701896397 / 4503599627370496), current = Num 0\<rparr> =
   Some (map (\<lambda>k. Num (real_of_int k)) shown_100)"
  by (simp add: shown_100_def eval_nat_numeral advance_def fl_eval round_half_even_def)

lemma shown_100_sorted: "sorted shown_100"
  unfolding shown_100_def by (simp only: sorted2 sorted1 simp_thms) simp

lemma shown_100_bounded: "list_all (\<lambda>k. k \<le> 100) shown_100"
  unfolding shown_100_def by simp

lemma shown_100_last: "last shown_100 = 100"
  unfolding shown_100_def by simp

lemma advance_element: "advance c = (v, Some c') \<Longrightarrow> element c' = element c"
  by (auto simp: advance_def Let_def split: if_splits)

lemma animation_updateCounter:
  "frames s = [] \<Longrightarrow>
   animation n (element c) (updateCounter c s) = map_option (map Shown) (counter_trace n c)"
proof (induction n arbitrary: c s)
  case 0
  show ?case by simp
next
  case (Suc n)
  obtain v nxt where adv: "advance c = (v, nxt)" by (cases "advance c")
  show ?case
  proof (cases nxt)
    case None
    with adv Suc.prems show ?thesis by (simp add: updateCounter_def)
  next
    case (Some c')
    define s1 where "s1 = s\<lparr>textContent := (textContent s)(element c := Shown v), frames := []\<rparr>"
    have el: "element c' = element c" using adv Some by (simp add: advance_element)
    have fr: "frames s1 = []" by (simp add: s1_def)
    have upd: "updateCounter c s = s1\<lparr>frames := [c']\<rparr>"
      using adv Some Suc.prems by (simp add: updateCounter_def s1_def)
    have idem: "s1\<lparr>frames := []\<rparr> = s1" by (simp add: s1_def)
    have shown: "textContent s1 (element c) = Shown v" by (simp add: s1_def)
    have "animation n (element c') (updateCounter c' s1) =
        map_option (map Shown) (counter_trace n c')"
      using fr by (rule Suc.IH)
    then show ?thesis
      using adv Some by (simp add: upd idem shown el option.map_comp comp_def)
  qed
qed

text \<open>
  C1. A counter whose \<open>data-target\<close> is 100 adds \<open>100 / (2000 / 16)\<close>, rounded to binary64,
  at every step and shows the floor of the running total while the total is below 100;
  the step at which the total is no longer below 100 shows the target itself. The
  animation ends after 126 steps; the values shown (\<open>shown_100\<close>) never decrease, none
  exceeds 100, and the last one is 100.
\<close>

theorem counter_animation_100:
  assumes "getAttribute s el ''data-target'' = Some ''100''" and "frames s = []"
  shows "animation 126 el (StatsCounter_animateCounter el s) =
          Some (map (\<lambda>k. Shown (Num (real_of_int k))) shown_100) \<and>
        sorted shown_100 \<and> list_all (\<lambda>k. k \<le> 100) shown_100 \<and> last shown_100 = 100 \<and>
        increment (new_counter s el) = num_div (Num 100) (num_div (Num 2000) (Num 16))"
proof -
  have "animation 126 (element (new_counter s el))
      (updateCounter (new_counter s el) (s\<lparr>animationsStarted := animationsStarted s @ [el]\<rparr>)) =
    map_option (map Shown) (counter_trace 126 (new_counter s el))"
    by (rule animation_updateCounter) (simp add: assms(2))
  then have "animation 126 el (StatsCounter_animateCounter el s) =
      Some (map (\<lambda>k. Shown (Num (real_of_int k))) shown_100)"
    unfolding StatsCounter_animateCounter_def new_counter_100 [OF assms(1)] counter_trace_100
    by (simp add: comp_def)
  moreover have "increment (new_counter s el) = num_div (Num 100) (num_div (Num 2000) (Num 16))"
    unfolding new_counter_100 [OF assms(1)] steps_per_animation increment_100 by simp
  ultimately show ?thesis
    using shown_100_sorted shown_100_bounded shown_100_last by blast
qed

theorem counter_animation_100_witness:
  "getAttribute sample 7 ''data-target'' = Some ''100'' \<and> frames sample = [] \<and>
   animation 126 7 (StatsCounter_animateCounter 7 sample) =
     Some (map (\<lambda>k. Shown (Num (real_of_int k))) shown_100) \<and>
   last shown_100 = 100"
proof -
  have a: "getAttribute sample 7 ''data-target'' = Some ''100''"
    by (simp add: sample_def getAttribute_def)
  have b: "frames sample = []" by (simp add: sample_def)
  show ?thesis
    using counter_animation_100 [OF a b] a b by blast
qed


subsection \<open>Without an intersection observer\<close>

lemma step_unobserved:
  assumes "statsObserved s = {} \<and> animationsStarted s = A"
  shows "statsObserved (step e s) = {} \<and> animationsStarted (step e s) = A"
proof (rule step_invariant
    [where P = "\<lambda>s. statsObserved s = {} \<and> animationsStarted s = A"], goal_cases)
  case 1 show ?case by (rule assms)
next
  case (2 y) with assms show ?case by simp
next
  case (3 h cur tgt s) then show ?case by (simp add: invoke_static invoke_animations)
next
  case (6 el s') with assms show ?case by simp
next
  case (10 t s) then show ?case
    by (cases t) (auto simp: Parallax_later_def Let_def dom_defs split: option.splits)
qed (auto simp: handler_defs dom_defs Let_def split: option.splits prod.splits)

lemma run_unobserved:
  assumes "statsObserved s = {}"
  shows "animationsStarted (run evs s) = animationsStarted s"
proof -
  have "statsObserved (run evs s) = {} \<and> animationsStarted (run evs s) = animationsStarted s"
    unfolding run_def
    by (rule fold_invariant
        [where P = "\<lambda>s'. statsObserved s' = {} \<and> animationsStarted s' = animationsStarted s"])
      (simp_all add: assms step_unobserved)
  then show ?thesis by simp
qed

text \<open>
  C2. On the sample page without an intersection observer, initialisation starts the
  preload of the lazy image, but starts no counter animation, and no later event starts
  one: the counter element keeps its text.
\<close>

theorem counters_idle_without_observer:
  "statNumbers (DOMContentLoaded sample_no_observer) = [7] \<and>
   preloads (DOMContentLoaded sample_no_observer) = [(5, ''a.jpg'')] \<and>
   textContent (DOMContentLoaded sample_no_observer) 7 = Text [] \<and>
   frames (DOMContentLoaded sample_no_observer) = [] \<and>
   animationsStarted (run evs (DOMContentLoaded sample_no_observer)) = []"
proof -
  have "statsObserved (DOMContentLoaded sample_no_observer) = {}"
    by (simp add: DOMContentLoaded_observers sample_no_observer_def sample_def)
  then have "animationsStarted (run evs (DOMContentLoaded sample_no_observer)) =
      animationsStarted (DOMContentLoaded sample_no_observer)"
    by (rule run_unobserved)
  moreover have "animationsStarted (DOMContentLoaded sample_no_observer) = []"
    by (simp add: DOMContentLoaded_fields sample_no_observer_def sample_def)
  moreover have "statNumbers (DOMContentLoaded sample_no_observer) = [7]"
    by (simp add: DOMContentLoaded_statNumbers sample_no_observer_def sample_def)
  moreover have "preloads (DOMContentLoaded sample_no_observer) = [(5, ''a.jpg'')]"
    by (simp add: DOMContentLoaded_observers getAttribute_def sample_no_observer_def sample_def)
  moreover have "textContent (DOMContentLoaded sample_no_observer) 7 = Text []"
    "frames (DOMContentLoaded sample_no_observer) = []"
    by (simp_all add: sample_no_observer_def sample_def)
  ultimately show ?thesis by simp
qed


subsection \<open>Scroll listeners\<close>

text \<open>
  C3, as amended. Initialisation registers one scroll listener on the window for each
  component that reads the scroll offset: always one for the navigation, one for the
  back-to-top button exactly when the button exists, one (debounced) for the parallax
  effect exactly when the hero image exists. A scroll event runs every registered
  listener, in the order of registration.
\<close>

theorem scroll_listeners_registered:
  "registered (DOMContentLoaded s0) Window ''scroll'' =
     registered s0 Window ''scroll'' @ [NavHandleScroll] @
     (case getElementById s0 ''backToTop'' of None \<Rightarrow> [] | Some b \<Rightarrow> [BackToTopHandleScroll]) @
     (case querySelector s0 ''.hero-img'' of None \<Rightarrow> [] | Some h \<Rightarrow> [ParallaxDebounced]) \<and>
   step (Scroll y) s =
     fold (\<lambda>h s'. after (invoke h Window (body s) s')) (registered s Window ''scroll'')
       (s\<lparr>scrollY := y\<rparr>)"
  by (simp add: DOMContentLoaded_scroll_listeners deliver_registered)

text \<open>
  On the sample page, which has the button and the hero image, three scroll listeners
  are registered, not one.
\<close>

theorem three_scroll_listeners:
  "registered (DOMContentLoaded sample) Window ''scroll'' =
     [NavHandleScroll, BackToTopHandleScroll, ParallaxDebounced] \<and>
   length (registered (DOMContentLoaded sample) Window ''scroll'') \<noteq> 1"
proof -
  have "getElementById sample ''backToTop'' = Some 8"
    by (simp add: getElementById_def sample_def)
  moreover have "querySelector sample ''.hero-img'' = Some 9"
    by (simp add: querySelector_def sample_def)
  moreover have "registered sample Window ''scroll'' = []"
    by (simp add: registered_def sample_def)
  ultimately show ?thesis by (simp add: DOMContentLoaded_scroll_listeners)
qed


subsection \<open>Missing elements\<close>

text \<open>
  C4. Without the menu toggle, the document click listener and the menu link listener
  throw at a viewport width of 500; without the navbar, the scroll listener throws.
  Both listeners are registered whether or not the elements exist.
\<close>

theorem missing_element_throws:
  "menuToggle (DOMContentLoaded sample_no_toggle) = None \<and>
   DocumentClick \<in> set (registered (DOMContentLoaded sample_no_toggle) Document ''click'') \<and>
   Navigation_documentClick 10 (DOMContentLoaded sample_no_toggle) =
     Inl (TypeError, DOMContentLoaded sample_no_toggle) \<and>
   Navigation_linkClick (DOMContentLoaded sample_no_toggle) =
     Inl (TypeError, DOMContentLoaded sample_no_toggle) \<and>
   navbar (DOMContentLoaded sample_no_navbar) = None \<and>
   NavHandleScroll \<in> set (registered (DOMContentLoaded sample_no_navbar) Window ''scroll'') \<and>
   Navigation_handleScroll (DOMContentLoaded sample_no_navbar) =
     Inl (TypeError, DOMContentLoaded sample_no_navbar)"
proof -
  have mt: "menuToggle (DOMContentLoaded sample_no_toggle) = None"
    and nm: "navMenu (DOMContentLoaded sample_no_toggle) = Some 3"
    by (simp_all add: DOMContentLoaded_fields getElementById_def sample_no_toggle_def sample_def)
  have w: "innerWidth sample_no_toggle = 500"
    and pc: "parentChain sample_no_toggle 10 = [0]"
    by (simp_all add: sample_no_toggle_def sample_def)
  have nb: "navbar (DOMContentLoaded sample_no_navbar) = None"
    by (simp add: DOMContentLoaded_fields getElementById_def sample_no_navbar_def sample_def)
  show ?thesis
    by (simp add: mt nm w pc nb DOMContentLoaded_document_click DOMContentLoaded_scroll_listeners
        Navigation_documentClick_def Navigation_linkClick_def Navigation_closeMenu_def
        Navigation_handleScroll_def contains_def)
qed


subsection \<open>Counters start once\<close>

lemma step_once_started:
  assumes "distinct (animationsStarted s) \<and> set (animationsStarted s) \<subseteq> animated s"
  shows "distinct (animationsStarted (step e s)) \<and>
    set (animationsStarted (step e s)) \<subseteq> animated (step e s)"
proof (rule step_invariant
    [where P = "\<lambda>s. distinct (animationsStarted s) \<and> set (animationsStarted s) \<subseteq> animated s"],
    goal_cases)
  case 1 show ?case by (rule assms)
next
  case (2 y) with assms show ?case by simp
next
  case (3 h cur tgt s) then show ?case by (simp add: invoke_animations)
next
  case (6 el s') then show ?case
    by (auto simp: StatsCounter_animateCounter_def updateCounter_def split: prod.splits option.splits)
next
  case (10 t s) then show ?case
    by (cases t) (auto simp: Parallax_later_def Let_def dom_defs split: option.splits)
qed (auto simp: handler_defs dom_defs Let_def split: option.splits prod.splits)

text \<open>
  C5. Whatever events follow initialisation, no element occurs twice among the started
  counter animations. The handler skips an entry whose target is in the set \<open>animated\<close>,
  and for an intersecting entry whose target is not in it, it starts the animation and
  adds the target to the set.
\<close>

theorem counter_animated_once:
  assumes "animationsStarted s0 = []"
  shows "distinct (animationsStarted (run evs (DOMContentLoaded s0))) \<and>
    (el \<in> animated s \<longrightarrow>
       StatsCounter_handleIntersection [\<lparr>entryTarget = el, isIntersecting = b\<rparr>] s = s) \<and>
    (el \<notin> animated s \<longrightarrow>
       animationsStarted
         (StatsCounter_handleIntersection [\<lparr>entryTarget = el, isIntersecting = True\<rparr>] s) =
         animationsStarted s @ [el] \<and>
       el \<in> animated
         (StatsCounter_handleIntersection [\<lparr>entryTarget = el, isIntersecting = True\<rparr>] s))"
proof -
  have "distinct (animationsStarted (DOMContentLoaded s0)) \<and>
      set (animationsStarted (DOMContentLoaded s0)) \<subseteq> animated (DOMContentLoaded s0)"
    by (simp add: DOMContentLoaded_fields assms)
  then have "distinct (animationsStarted (run evs (DOMContentLoaded s0))) \<and>
      set (animationsStarted (run evs (DOMContentLoaded s0))) \<subseteq>
        animated (run evs (DOMContentLoaded s0))"
    unfolding run_def
    by (rule fold_invariant
        [where P = "\<lambda>s. distinct (animationsStarted s) \<and> set (animationsStarted s) \<subseteq> animated s"])
      (rule step_once_started)
  then show ?thesis
    by (auto simp: StatsCounter_handleIntersection_def StatsCounter_animateCounter_def
        updateCounter_def Let_def split: prod.splits option.splits)
qed

theorem counter_animated_once_witness:
  "animationsStarted sample = [] \<and>
   distinct (animationsStarted
     (run [StatsIntersection [\<lparr>entryTarget = 7, isIntersecting = True\<rparr>],
           StatsIntersection [\<lparr>entryTarget = 7, isIntersecting = False\<rparr>],
           StatsIntersection [\<lparr>entryTarget = 7, isIntersecting = True\<rparr>]]
        (DOMContentLoaded sample))) \<and>
   7 \<notin> animated (DOMContentLoaded sample) \<and>
   animationsStarted
     (StatsCounter_handleIntersection [\<lparr>entryTarget = 7, isIntersecting = True\<rparr>]
        (DOMContentLoaded sample)) = animationsStarted (DOMContentLoaded sample) @ [7] \<and>
   7 \<in> animated
     (StatsCounter_handleIntersection [\<lparr>entryTarget = 7, isIntersecting = True\<rparr>]
        (DOMContentLoaded sample)) \<and>
   StatsCounter_handleIntersection [\<lparr>entryTarget = 7, isIntersecting = True\<rparr>]
     (StatsCounter_handleIntersection [\<lparr>entryTarget = 7, isIntersecting = True\<rparr>]
        (DOMContentLoaded sample)) =
   StatsCounter_handleIntersection [\<lparr>entryTarget = 7, isIntersecting = True\<rparr>]
     (DOMContentLoaded sample)"
proof -
  have a: "animationsStarted sample = []" by (simp add: sample_def)
  have b: "7 \<notin> animated (DOMContentLoaded sample)" by (simp add: DOMContentLoaded_fields)
  show ?thesis
    using counter_animated_once [OF a, of _ 7 "DOMContentLoaded sample"]
      counter_animated_once [OF a, of _ 7
        "StatsCounter_handleIntersection [\<lparr>entryTarget = 7, isIntersecting = True\<rparr>]
           (DOMContentLoaded sample)" True] a b
    by blast
qed


subsection \<open>The reveal flag\<close>

lemma invoke_visible:
  assumes "button s \<noteq> Some x" and "''visible'' \<in> classList s x"
  shows "''visible'' \<in> classList (after (invoke h cur tgt s)) x"
  using assms
  by (cases h; cases cur) (auto simp: handler_defs dom_defs Let_def split: option.splits)

lemma step_visible:
  assumes "button s \<noteq> Some x \<and> ''visible'' \<in> classList s x"
  shows "button (step e s) \<noteq> Some x \<and> ''visible'' \<in> classList (step e s) x"
proof (rule step_invariant
    [where P = "\<lambda>s. button s \<noteq> Some x \<and> ''visible'' \<in> classList s x"], goal_cases)
  case 1 show ?case by (rule assms)
next
  case (2 y) with assms show ?case by simp
next
  case (3 h cur tgt s) then show ?case by (simp add: invoke_static invoke_visible)
next
  case (10 t s) then show ?case
    by (cases t) (auto simp: Parallax_later_def Let_def dom_defs split: option.splits)
qed (auto simp: handler_defs dom_defs Let_def split: option.splits prod.splits)

lemma reveal_keeps_visible:
  assumes "''visible'' \<in> classList s x"
  shows "''visible'' \<in> classList (ScrollAnimations_handleIntersection es s) x"
  unfolding ScrollAnimations_handleIntersection_def using assms
  by (rule fold_invariant [where P = "\<lambda>s. ''visible'' \<in> classList s x"])
    (simp add: classList_add_def)

text \<open>
  C6, as amended. No intersection notification removes the class \<open>visible\<close> from any
  element; and for every element other than the back-to-top button, no event of the page
  removes it.
\<close>

theorem visible_flag_kept:
  assumes "''visible'' \<in> classList s x"
  shows "''visible'' \<in> classList (ScrollAnimations_handleIntersection es s) x \<and>
    (button s \<noteq> Some x \<longrightarrow> ''visible'' \<in> classList (run evs s) x)"
proof -
  have "button (run evs s) \<noteq> Some x \<and> ''visible'' \<in> classList (run evs s) x"
    if "button s \<noteq> Some x"
    unfolding run_def
    by (rule fold_invariant
        [where P = "\<lambda>s. button s \<noteq> Some x \<and> ''visible'' \<in> classList s x"])
      (use that assms in \<open>simp_all add: step_visible\<close>)
  then show ?thesis using assms by (simp add: reveal_keeps_visible)
qed

theorem visible_flag_kept_witness:
  "''visible'' \<in> classList (classList_add 6 ''visible'' (DOMContentLoaded sample)) 6 \<and>
   button (classList_add 6 ''visible'' (DOMContentLoaded sample)) \<noteq> Some 6 \<and>
   ''visible'' \<in> classList
     (ScrollAnimations_handleIntersection [\<lparr>entryTarget = 6, isIntersecting = False\<rparr>]
        (classList_add 6 ''visible'' (DOMContentLoaded sample))) 6 \<and>
   ''visible'' \<in> classList
     (run [RevealIntersection [\<lparr>entryTarget = 6, isIntersecting = False\<rparr>], Scroll 0, Click 6]
        (classList_add 6 ''visible'' (DOMContentLoaded sample))) 6"
proof -
  have a: "''visible'' \<in> classList (classList_add 6 ''visible'' (DOMContentLoaded sample)) 6"
    by (simp add: classList_add_def)
  have "button (classList_add 6 ''visible'' (DOMContentLoaded sample)) =
      getElementById sample ''backToTop''"
    by (simp add: classList_add_def DOMContentLoaded_fields)
  then have b: "button (classList_add 6 ''visible'' (DOMContentLoaded sample)) \<noteq> Some 6"
    by (simp add: getElementById_def sample_def)
  show ?thesis
    using visible_flag_kept [OF a] a b by blast
qed

text \<open>
  C6 as stated fails when the back-to-top button is itself a reveal element: a scroll
  event at an offset of at most 500 removes \<open>visible\<close> from it.
\<close>

theorem visible_flag_removed:
  "8 \<in> set (elements (DOMContentLoaded sample_aliased)) \<and>
   ''visible'' \<in> classList
      (run [RevealIntersection [\<lparr>entryTarget = 8, isIntersecting = True\<rparr>]]
         (DOMContentLoaded sample_aliased)) 8 \<and>
   ''visible'' \<notin> classList
      (run [RevealIntersection [\<lparr>entryTarget = 8, isIntersecting = True\<rparr>], Scroll 0]
         (DOMContentLoaded sample_aliased)) 8"
proof -
  define s where "s = DOMContentLoaded sample_aliased"
  define s1 where "s1 = classList_add 8 ''visible'' s"
  have els: "elements s = [6, 8]" and obs: "revealObserved s = {6, 8}"
    by (simp_all add: s_def DOMContentLoaded_observers sample_aliased_def sample_def)
  have btn: "button s = Some 8" and nav: "navbar s = Some 1"
    by (simp_all add: s_def DOMContentLoaded_fields getElementById_def sample_aliased_def
        sample_def)
  have "registered s Window ''scroll'' =
      [NavHandleScroll, BackToTopHandleScroll, ParallaxDebounced]"
    unfolding s_def DOMContentLoaded_scroll_listeners
    by (simp add: getElementById_def querySelector_def registered_def sample_aliased_def
        sample_def)
  then have reg: "registered (s1\<lparr>scrollY := 0\<rparr>) Window ''scroll'' =
      [NavHandleScroll, BackToTopHandleScroll, ParallaxDebounced]"
    by (simp add: s1_def registered_def classList_add_def)
  have r1: "run [RevealIntersection [\<lparr>entryTarget = 8, isIntersecting = True\<rparr>]] s = s1"
    by (simp add: run_def ScrollAnimations_handleIntersection_def obs s1_def)
  have v1: "''visible'' \<in> classList s1 8" by (simp add: s1_def classList_add_def)
  have "''visible'' \<notin> classList (step (Scroll 0) s1) 8"
    unfolding step.simps deliver_registered reg
    by (simp add: Navigation_handleScroll_def BackToTop_handleScroll_def Parallax_debounced_def
        dom_defs Let_def s1_def btn nav)
  then have "''visible'' \<notin> classList
      (run [RevealIntersection [\<lparr>entryTarget = 8, isIntersecting = True\<rparr>], Scroll 0] s) 8"
    using r1 by (simp add: run_def)
  with els r1 v1 show ?thesis by (simp add: s_def)
qed


subsection \<open>The navbar flag\<close>

lemma handleScroll_scrolled_at:
  assumes "navbar s = Some nb" and "scrollY s = y"
  shows "scrolled_at y nb (after (Navigation_handleScroll s))"
  using assms by (simp add: scrolled_at_def Navigation_handleScroll_def Let_def dom_defs)

lemma invoke_scrollY: "scrollY (after (invoke h cur tgt s)) = scrollY s"
  by (cases h; cases cur) (simp_all add: handler_defs dom_defs Let_def split: option.splits)

lemma invoke_scrolled_at:
  assumes "navbar s = Some nb" and "scrolled_at y nb s"
  shows "scrolled_at y nb (after (invoke h cur tgt s))"
proof (cases "h = NavHandleScroll")
  case True
  from assms(2) have "scrollY s = y" by (simp add: scrolled_at_def)
  with assms(1) True show ?thesis by (simp add: handleScroll_scrolled_at)
next
  case False
  with assms show ?thesis
    by (cases h; cases cur)
      (auto simp: scrolled_at_def handler_defs dom_defs Let_def split: option.splits)
qed

lemma scroll_handlers_scrolled_at:
  assumes "NavHandleScroll \<in> set hs" and "navbar s = Some nb" and "scrollY s = y"
  shows "scrolled_at y nb (fold (\<lambda>h s. after (invoke h cur tgt s)) hs s)"
  using assms
proof (induction hs arbitrary: s)
  case Nil
  then show ?case by simp
next
  case (Cons h hs)
  let ?s = "after (invoke h cur tgt s)"
  have nb: "navbar ?s = Some nb" using Cons.prems(2) by (simp add: invoke_static)
  have y: "scrollY ?s = y" using Cons.prems(3) by (simp add: invoke_scrollY)
  show ?case
  proof (cases "h = NavHandleScroll")
    case True
    then have "scrolled_at y nb ?s"
      using Cons.prems by (simp add: handleScroll_scrolled_at)
    then have "navbar (fold (\<lambda>h s. after (invoke h cur tgt s)) hs ?s) = Some nb \<and>
        scrolled_at y nb (fold (\<lambda>h s. after (invoke h cur tgt s)) hs ?s)"
      using nb
      by (intro fold_invariant [where P = "\<lambda>s. navbar s = Some nb \<and> scrolled_at y nb s"])
        (simp_all add: invoke_static invoke_scrolled_at)
    then show ?thesis by simp
  next
    case False
    with Cons.prems(1) have "NavHandleScroll \<in> set hs" by simp
    then show ?thesis using Cons.IH [OF _ nb y] by simp
  qed
qed

lemma step_scrolled_at:
  assumes "navbar s = Some nb \<and> scrolled_at y nb s" and "\<And>y'. e \<noteq> Scroll y'"
  shows "navbar (step e s) = Some nb \<and> scrolled_at y nb (step e s)"
proof (rule step_invariant [where P = "\<lambda>s. navbar s = Some nb \<and> scrolled_at y nb s"],
    goal_cases)
  case 1 show ?case by (rule assms(1))
next
  case (2 y') with assms(2) [of y'] show ?case by simp
next
  case (3 h cur tgt s) then show ?case by (simp add: invoke_static invoke_scrolled_at)
next
  case (10 t s) then show ?case
    by (cases t) (auto simp: scrolled_at_def Parallax_later_def Let_def dom_defs split: option.splits)
qed (auto simp: scrolled_at_def handler_defs dom_defs Let_def split: option.splits prod.splits)

text \<open>
  C7. On a page with a navbar, at any time after initialisation: once a scroll event with
  offset \<open>y\<close> has been delivered, and whatever other events follow it before the next
  scroll event, the navbar carries the class \<open>scrolled\<close> exactly when \<open>100 < y\<close>, and the
  remembered offset is \<open>y\<close>. The events before are arbitrary, so a scroll above 100
  followed by one at 100 or below sets the flag and then clears it.
\<close>

theorem navbar_scrolled_flag:
  assumes "getElementById s0 ''navbar'' = Some nb" and "\<And>y'. Scroll y' \<notin> set later"
  shows "(''scrolled'' \<in> classList (run (evs @ [Scroll y] @ later) (DOMContentLoaded s0)) nb) = (100 < y) \<and>
    lastScrollY (run (evs @ [Scroll y] @ later) (DOMContentLoaded s0)) = y"
proof -
  define s1 where "s1 = run evs (DOMContentLoaded s0)"
  define s2 where "s2 = step (Scroll y) s1"
  have nb1: "navbar s1 = Some nb"
    unfolding s1_def by (simp add: run_static DOMContentLoaded_fields assms(1))
  have "registered s1 = registered (DOMContentLoaded s0)"
    unfolding s1_def by (rule registered_static) (simp add: run_static)
  then have reg: "NavHandleScroll \<in> set (registered s1 Window ''scroll'')"
    by (simp add: DOMContentLoaded_scroll_listeners)
  have "scrolled_at y nb s2"
    unfolding s2_def step.simps deliver_registered registered_scrollY
    using reg by (rule scroll_handlers_scrolled_at) (simp_all add: nb1)
  moreover have "navbar s2 = Some nb"
    unfolding s2_def using nb1 by (simp only: step_static)
  ultimately have "navbar (run later s2) = Some nb \<and> scrolled_at y nb (run later s2)"
    unfolding run_def
    by (intro fold_invariant_set [where P = "\<lambda>s. navbar s = Some nb \<and> scrolled_at y nb s"]
        conjI step_scrolled_at [THEN conjunct1] step_scrolled_at [THEN conjunct2])
      (use assms(2) in auto)
  moreover have "run (evs @ [Scroll y] @ later) (DOMContentLoaded s0) = run later s2"
    by (simp add: run_append s1_def s2_def run_def)
  ultimately show ?thesis by (simp add: scrolled_at_def)
qed

theorem navbar_scrolled_flag_witness:
  "getElementById sample ''navbar'' = Some 1 \<and>
   ''scrolled'' \<in> classList (run [Scroll 150] (DOMContentLoaded sample)) 1 \<and>
   ''scrolled'' \<notin> classList (run [Scroll 150, Scroll 100, Click 4] (DOMContentLoaded sample)) 1 \<and>
   lastScrollY (run [Scroll 150, Scroll 100, Click 4] (DOMContentLoaded sample)) = 100"
proof -
  have a: "getElementById sample ''navbar'' = Some 1" by (rule sample_navbar)
  have b: "Scroll y' \<notin> set []" for y' by simp
  have c: "Scroll y' \<notin> set [Click 4]" for y' by simp
  show ?thesis
    using navbar_scrolled_flag [OF a b, of "[]" 150]
      navbar_scrolled_flag [OF a c, of "[Scroll 150]" 100] a
    by simp
qed


subsection \<open>The mobile menu\<close>
















subsection \<open>Anchor links\<close>









subsection \<open>Lazy images without a source\<close>

text \<open>
  C10. For an image without the \<open>data-src\<close> attribute \<open>loadImage\<close> changes nothing: no preload
  is started, no attribute is written and no class is added.
\<close>

theorem loadImage_without_source:
  assumes "getAttribute s img ''data-src'' = None"
  shows "LazyLoader_loadImage img s = s"
  using assms by (simp add: LazyLoader_loadImage_def)

theorem loadImage_without_source_witness:
  "getAttribute sample 13 ''data-src'' = None \<and> LazyLoader_loadImage 13 sample = sample"
proof -
  have a: "getAttribute sample 13 ''data-src'' = None"
    by (simp add: sample_def getAttribute_def)
  show ?thesis using a loadImage_without_source [OF a] by blast
qed

end
